theory Spec2Isabelle
  imports Main "HOL-Library.AList"
begin

section \<open>Data model\<close>

text \<open>
  Modelled from the spec: the types \<^verbatim>\<open>Measurement\<close>, \<^verbatim>\<open>MeasurementType\<close>,
  \<^verbatim>\<open>DataGroup\<close> and \<^verbatim>\<open>UserDataArray\<close> are declared in \<^verbatim>\<open>./types\<close>, which is not
  among the sources. The specification gives a measurement the fields date (integer epoch
  seconds), value (numeric or numeric array), userId (integer) and measureType, and a group
  its timestamp, its userId and any of the recognized field names; the program reads and
  writes exactly these properties.

  Numbers are taken as integers: the program only stores them, copies them and tests them
  for truthiness, and the only falsy number that an integer cannot stand for is NaN, which
  JSON cannot carry. An array is an object, hence truthy even when empty.
\<close>

datatype jsvalue = Num int | NumArray "int list"

fun truthy :: "jsvalue \<Rightarrow> bool" where
  "truthy (Num n) = (n \<noteq> 0)"
| "truthy (NumArray xs) = True"

text \<open>
  \<^verbatim>\<open>Measurement = {date, value, userId, measureType}\<close> and
  \<^verbatim>\<open>DataGroup = {timestamp, userId, heartRate?, breathFrequency?, ...}\<close>.
  Both objects have a \<^verbatim>\<open>userId\<close>; the common parent record lets the two share the
  selector. The optional fields of a group are kept as an association list from property
  name to value, in the order in which the properties were first assigned, as a
  JavaScript object keeps them; the property names that the table of types yields are
  taken to differ from \<^verbatim>\<open>timestamp\<close> and \<^verbatim>\<open>userId\<close>. The measurement type is the
  string read from the JSON file, which nothing checks against the declared type.
\<close>

record Identified =
  userId :: int

record Measurement = Identified +
  date :: int
  value' :: jsvalue
  measureType :: string

record DataGroup = Identified +
  timestamp :: int
  props :: "(string \<times> jsvalue) list"

record UserData =
  data :: "Measurement list"

text \<open>
  Modelled from the spec: the table \<^verbatim>\<open>MeasurementTypeEnum\<close> is declared in
  \<^verbatim>\<open>./types\<close>, which is not among the sources. It maps the raw type codes,
  the two ignored codes included, to the property names of a group; the seven property
  names are the ones the playback driver reads. The entries of the two ignored codes are
  never read, because \<^verbatim>\<open>ignoreMeasurementType\<close> is tested first. The functions below
  take the table as an argument \<open>E\<close>; this constant is the instance used in examples.
  A code that is not a key of the table yields \<^verbatim>\<open>undefined\<close>, here \<open>None\<close>.
\<close>

definition MeasurementTypeEnum :: "string \<Rightarrow> string option" where
  "MeasurementTypeEnum = map_of
     [(''HeartRate'', ''heartRate''),
      (''BreathFrequency'', ''breathFrequency''),
      (''Respiration'', ''respiration''),
      (''AccelerationX'', ''accelerationX''),
      (''AccelerationY'', ''accelerationY''),
      (''AccelerationZ'', ''accelerationZ''),
      (''Position'', ''position''),
      (''R2R'', ''r2r''),
      (''ECG'', ''ecg'')]"

section \<open>Measurement pipeline\<close>

text \<open>\<^verbatim>\<open>data.map((d) => d.data).flat()\<close>\<close>

definition flatMeasurementData :: "UserData list \<Rightarrow> Measurement list" where
  "flatMeasurementData ds = concat (map data ds)"

text \<open>\<^verbatim>\<open>measureType === 'R2R' || measureType === 'ECG'\<close>\<close>

definition ignoreMeasurementType :: "string \<Rightarrow> bool" where
  "ignoreMeasurementType mt = (mt = ''R2R'' \<or> mt = ''ECG'')"

text \<open>
  The \<^verbatim>\<open>Map<number, DataGroup>\<close> is an association list in insertion order:
  \<^verbatim>\<open>has\<close> and \<^verbatim>\<open>get\<close> are \<open>map_of\<close>, and \<^verbatim>\<open>set\<close> is \<open>AList.update\<close>, which
  replaces the value of a key in place and appends a new key at the end. Assigning a
  property of the object returned by \<^verbatim>\<open>get\<close> mutates the object held by the map, so
  the model stores the changed group back under its key.

  One pass of the loop body of \<^verbatim>\<open>groupMeasurementsByTimestamp\<close>:
\<close>

definition groupStep ::
  "(string \<Rightarrow> string option) \<Rightarrow> (int \<times> DataGroup) list \<Rightarrow> Measurement \<Rightarrow> (int \<times> DataGroup) list"
where
  "groupStep E grp m =
     (let mt = measureType m in
      if ignoreMeasurementType mt then grp
      else
        let ts = date m;
            grp1 =
              (if map_of grp ts = None
               then AList.update ts \<lparr>userId = userId m, timestamp = ts, props = []\<rparr> grp
               else grp)
        in case E mt of
             None \<Rightarrow> grp1
           | Some measureKey \<Rightarrow>
               if measureKey = [] then grp1
               else (case map_of grp1 ts of
                       None \<Rightarrow> grp1
                     | Some datum \<Rightarrow>
                         AList.update ts
                           (datum\<lparr>props := AList.update measureKey (value' m) (props datum)\<rparr>)
                           grp1))"

definition groupMeasurementsByTimestamp ::
  "(string \<Rightarrow> string option) \<Rightarrow> Measurement list \<Rightarrow> (int \<times> DataGroup) list"
where
  "groupMeasurementsByTimestamp E measurements = foldl (groupStep E) [] measurements"

subsection \<open>Notions for the properties of the grouping\<close>

text \<open>
  A measurement is retained at timestamp \<open>t\<close> when it is not ignored and bears that
  timestamp; it writes property \<open>k\<close> of that group when, in addition, the table gives
  its type the (truthy, that is non-empty) property name \<open>k\<close>.
\<close>

definition retainedAt :: "int \<Rightarrow> Measurement \<Rightarrow> bool" where
  "retainedAt t m = (\<not> ignoreMeasurementType (measureType m) \<and> date m = t)"

definition writesField :: "(string \<Rightarrow> string option) \<Rightarrow> int \<Rightarrow> string \<Rightarrow> Measurement \<Rightarrow> bool" where
  "writesField E t k m = (retainedAt t m \<and> E (measureType m) = Some k \<and> k \<noteq> [])"

text \<open>\<^verbatim>\<open>data.get(t)?.[k]\<close>: the value of property \<open>k\<close> of the group of timestamp \<open>t\<close>.\<close>

definition lookupField :: "(int \<times> DataGroup) list \<Rightarrow> int \<Rightarrow> string \<Rightarrow> jsvalue option" where
  "lookupField G t k = (case map_of G t of None \<Rightarrow> None | Some g \<Rightarrow> map_of (props g) k)"

text \<open>
  The seven recognized properties of a group, in the order in which
  \<^verbatim>\<open>prepareAndSendMessages\<close> reads them, each with the type name it puts in the
  message.
\<close>

definition recognizedFields :: "(string \<times> string) list" where
  "recognizedFields =
     [(''heartRate'', ''HeartRate''),
      (''breathFrequency'', ''BreathFrequency''),
      (''respiration'', ''Respiration''),
      (''accelerationX'', ''AccelerationX''),
      (''accelerationY'', ''AccelerationY''),
      (''accelerationZ'', ''AccelerationZ''),
      (''position'', ''Position'')]"

text \<open>
  The specification's ``flattening the fields of the groups'': every recognized property
  that a group holds becomes a measurement again, with the group's timestamp and userId.
  This is the specification's operation, not a function of the program.
\<close>

definition flattenGroup :: "DataGroup \<Rightarrow> Measurement list" where
  "flattenGroup g =
     List.map_filter
       (\<lambda>ft. map_option
          (\<lambda>v. \<lparr>userId = userId g, date = timestamp g, value' = v, measureType = snd ft\<rparr>)
          (map_of (props g) (fst ft)))
       recognizedFields"

definition flattenGroups :: "(int \<times> DataGroup) list \<Rightarrow> Measurement list" where
  "flattenGroups G = concat (map (\<lambda>tg. flattenGroup (snd tg)) G)"

text \<open>The specification's ``retained (non-ignored) measurements''.\<close>

definition retained :: "Measurement list \<Rightarrow> Measurement list" where
  "retained ms = filter (\<lambda>m. \<not> ignoreMeasurementType (measureType m)) ms"

text \<open>
  The specification's ``last write wins'': of the elements that share a key, only the last
  one in input order is kept.
\<close>

fun lastWins :: "('a \<Rightarrow> 'k) \<Rightarrow> 'a list \<Rightarrow> 'a list" where
  "lastWins key [] = []"
| "lastWins key (x # xs) =
     (if list_ex (\<lambda>y. key y = key x) xs then lastWins key xs else x # lastWins key xs)"

definition fieldKey :: "(string \<Rightarrow> string option) \<Rightarrow> Measurement \<Rightarrow> int \<times> string option" where
  "fieldKey E m = (date m, E (measureType m))"

text \<open>The measurements of the seven types that the driver forwards.\<close>

definition recognized :: "Measurement \<Rightarrow> bool" where
  "recognized m = (measureType m \<in> set (map snd recognizedFields))"

text \<open>
  A measurement with its userId replaced by the userId of the first retained measurement
  of the same timestamp in \<open>ms\<close>.
\<close>

definition relabel :: "Measurement list \<Rightarrow> Measurement \<Rightarrow> Measurement" where
  "relabel ms m =
     (case find (retainedAt (date m)) ms of
        None \<Rightarrow> m
      | Some f \<Rightarrow> m\<lparr>userId := userId f\<rparr>)"

section \<open>Strings\<close>

text \<open>
  Strings are lists of 8-bit characters, so the model covers ASCII text, which is what the
  command-line tools print for addresses and what the patterns of the program test. Case
  conversion changes the letters A to Z only.
\<close>

definition toLowerChar :: "char \<Rightarrow> char" where
  "toLowerChar c =
     (case map_of (zip ''ABCDEFGHIJKLMNOPQRSTUVWXYZ'' ''abcdefghijklmnopqrstuvwxyz'') c of
        None \<Rightarrow> c
      | Some l \<Rightarrow> l)"

definition toLowerCase :: "string \<Rightarrow> string" where
  "toLowerCase s = map toLowerChar s"

definition startsWith :: "string \<Rightarrow> string \<Rightarrow> bool" where
  "startsWith s p = (take (length p) s = p)"

definition endsWith :: "string \<Rightarrow> string \<Rightarrow> bool" where
  "endsWith s p = (length p \<le> length s \<and> drop (length s - length p) s = p)"

fun includes_str :: "string \<Rightarrow> string \<Rightarrow> bool" where
  "includes_str [] sub = (sub = [])"
| "includes_str (c # cs) sub = (startsWith (c # cs) sub \<or> includes_str cs sub)"

text \<open>\<^verbatim>\<open>s.split('\n')\<close>: always at least one piece.\<close>

fun splitLines :: "string \<Rightarrow> string list" where
  "splitLines [] = [[]]"
| "splitLines (c # cs) =
     (if c = CHR 0x0A then [] # splitLines cs
      else (case splitLines cs of [] \<Rightarrow> [[c]] | l # ls \<Rightarrow> (c # l) # ls))"

text \<open>
  The dot of a regular expression matches any character but a line terminator; of these,
  line feed and carriage return are 8-bit characters.
\<close>

definition notLineTerminator :: "char \<Rightarrow> bool" where
  "notLineTerminator c = (c \<noteq> CHR 0x0A \<and> c \<noteq> CHR 0x0D)"

text \<open>Decimal rendering of numbers, as \<^verbatim>\<open>String(n)\<close> and \<^verbatim>\<open>JSON.stringify\<close> print integers.\<close>

definition digit :: "nat \<Rightarrow> char" where
  "digit d = ''0123456789'' ! (d mod 10)"

function showNat :: "nat \<Rightarrow> string" where
  "showNat n = (if n < 10 then [digit n] else showNat (n div 10) @ [digit n])"
  by pat_completeness auto
termination
  by (relation "measure id") auto

declare showNat.simps [simp del]

definition showInt :: "int \<Rightarrow> string" where
  "showInt i = (if i < 0 then CHR ''-'' # showNat (nat (- i)) else showNat (nat i))"

text \<open>\<^verbatim>\<open>Array.prototype.join\<close>\<close>

fun join :: "string \<Rightarrow> string list \<Rightarrow> string" where
  "join sep [] = []"
| "join sep [x] = x"
| "join sep (x # y # ys) = x @ sep @ join sep (y # ys)"

fun stringifyValue :: "jsvalue \<Rightarrow> string" where
  "stringifyValue (Num n) = showInt n"
| "stringifyValue (NumArray xs) = ''['' @ join '','' (map showInt xs) @ '']''"

text \<open>
  \<^verbatim>\<open>JSON.stringify(msg)\<close> for a message object built in the order date, value, userId,
  measureType. The driver only puts the seven literal type names into
  \<^verbatim>\<open>measureType\<close>, so no character of it needs escaping.
\<close>

definition JSON_stringify :: "Measurement \<Rightarrow> string" where
  \<open>JSON_stringify msg =
     ''{"date":'' @ showInt (date msg) @
     '',"value":'' @ stringifyValue (value' msg) @
     '',"userId":'' @ showInt (userId msg) @
     '',"measureType":"'' @ measureType msg @ ''"}''\<close>

section \<open>Errors and effects\<close>

text \<open>
  The errors of the specification's taxonomy that the modelled functions raise, and
  \<open>CommandFailed\<close> for the error object that a failing \<^verbatim>\<open>exec\<close> or \<^verbatim>\<open>openSync\<close>
  hands over.
\<close>

datatype error =
  DeviceNotFound | ChannelNegotiationFailed | NotConnected | TransportWriteFailure | CommandFailed

text \<open>
  What a function does to the operating system is recorded, in order, as a list of calls.
  What the operating system answers is an argument of the function.
\<close>

datatype syscall =
  Exec string
| Spawn string "string list"
| Kill nat
| OpenSync string string
| Write int string

section \<open>Serial transport\<close>

text \<open>
  The class \<^verbatim>\<open>Bluetooth\<close> that holds a device handle. The spawned process is
  identified by the channel number it was started for.
\<close>

record Bluetooth =
  deviceAddress :: string
  rfcommProc :: "nat option"
  rfcommFd :: "int option"

text \<open>
  \<^verbatim>\<open>sendMessage\<close> of that class. \<open>fs_write fd line\<close> is the error that the operating
  system passes to the callback of \<^verbatim>\<open>fs.write\<close>, if any; the promise is settled by that
  callback and by nothing else.
\<close>

definition sendMessage ::
  "(int \<Rightarrow> string \<Rightarrow> error option) \<Rightarrow> Bluetooth \<Rightarrow> string \<Rightarrow> syscall list
     \<Rightarrow> error option \<times> syscall list"
where
  "sendMessage fs_write this message w =
     (case rfcommFd this of
        None \<Rightarrow> (Some NotConnected, w)
      | Some fd \<Rightarrow>
          let line = (if endsWith message [CHR 0x0A] then message else message @ [CHR 0x0A])
          in (fs_write fd line, w @ [Write fd line]))"

text \<open>
  The class \<^verbatim>\<open>Bluetooth\<close> of \<^verbatim>\<open>src/bluetooth.ts\<close> has no device handle but a
  connected flag. Its \<^verbatim>\<open>sendViaSPP\<close> runs a service browse and prints the message on
  the console; whether the browse fails or not, the error is caught. Its
  \<^verbatim>\<open>sendMessage\<close> warns and returns when the flag is not set, and catches every error
  of \<^verbatim>\<open>sendViaSPP\<close>. Console output is not recorded.
\<close>

record BluetoothSPP =
  deviceAddress' :: string
  deviceName :: string
  isConnected :: bool
  rfcommChannel :: string

definition sendViaSPP :: "BluetoothSPP \<Rightarrow> string \<Rightarrow> syscall list \<Rightarrow> error option \<times> syscall list" where
  "sendViaSPP this message w =
     (if \<not> isConnected this \<or> deviceAddress' this = [] then (None, w)
      else (None, w @ [Exec (''sdptool browse '' @ deviceAddress' this)]))"

definition sendMessageSPP :: "BluetoothSPP \<Rightarrow> string \<Rightarrow> syscall list \<Rightarrow> error option \<times> syscall list" where
  "sendMessageSPP this message w =
     (if \<not> isConnected this then (None, w)
      else (None, snd (sendViaSPP this message w)))"

section \<open>Playback driver\<close>

text \<open>
  The driver's observable effects: a message handed to the transport, which accepted it,
  and a wait on a timer of so many milliseconds.
\<close>

datatype event = Send string | Wait int

text \<open>
  The state of a run: still running, or left by an exception of the transport. Both carry
  the state of the transport's world and the effects so far.
\<close>

datatype 'w run = Running 'w "event list" | Thrown error 'w "event list"

text \<open>\<^verbatim>\<open>Array.from(data.keys()).sort((a, b) => a - b)\<close>\<close>

definition sortedTimestamps :: "(int \<times> DataGroup) list \<Rightarrow> int list" where
  "sortedTimestamps groupedData = sort (map fst groupedData)"

text \<open>\<^verbatim>\<open>sortedTimestamps.slice(1).map((key, i) => key - sortedTimestamps[i])\<close>\<close>

definition timeDeltas :: "int list \<Rightarrow> int list" where
  "timeDeltas ts = map (\<lambda>ik. snd ik - ts ! fst ik) (enumerate 0 (drop 1 ts))"

text \<open>
  One of the seven blocks \<^verbatim>\<open>if (datum.f) { msg = {...}; await sendMessage(...) }\<close>, for
  the property \<open>f\<close> and the type name \<open>T\<close>. \<open>now f\<close> is what \<^verbatim>\<open>Date.now()\<close> returns
  in that block. An exception of \<^verbatim>\<open>sendMessage\<close> leaves the function, so a run that
  has thrown does nothing more.
\<close>

definition sendField ::
  "(string \<Rightarrow> 'w \<Rightarrow> error option \<times> 'w) \<Rightarrow> (string \<Rightarrow> int) \<Rightarrow> DataGroup \<Rightarrow> string \<times> string
     \<Rightarrow> 'w run \<Rightarrow> 'w run"
where
  "sendField send now datum ft r =
     (case r of
        Thrown e w l \<Rightarrow> r
      | Running w l \<Rightarrow>
          (case map_of (props datum) (fst ft) of
             None \<Rightarrow> r
           | Some v \<Rightarrow>
               if truthy v then
                 let msg = \<lparr>userId = userId datum, date = now (fst ft), value' = v,
                            measureType = snd ft\<rparr>;
                     line = JSON_stringify msg
                 in (case send line w of
                       (None, w') \<Rightarrow> Running w' (l @ [Send line])
                     | (Some e, w') \<Rightarrow> Thrown e w' l)
               else r))"

text \<open>The seven blocks in their order.\<close>

definition sendFields ::
  "(string \<Rightarrow> 'w \<Rightarrow> error option \<times> 'w) \<Rightarrow> (string \<Rightarrow> int) \<Rightarrow> DataGroup \<Rightarrow> 'w run \<Rightarrow> 'w run"
where
  "sendFields send now datum r = fold (sendField send now datum) recognizedFields r"

text \<open>
  The delay of a timer of the runtime: \<^verbatim>\<open>setTimeout\<close> of Node.js takes a delay of at
  least 1 and at most 2147483647 milliseconds as it is, and sets any other delay to 1.
\<close>

definition setTimeoutDelay :: "int \<Rightarrow> int" where
  "setTimeoutDelay ms = (if 1 \<le> ms \<and> ms \<le> 2147483647 then ms else 1)"

text \<open>
  \<^verbatim>\<open>waitDelta(i, timeDeltas)\<close>: the waits it performs, each with the delay that the
  timer started by \<^verbatim>\<open>setTimeout(res, delay * 1000)\<close> has.
\<close>

definition waitDelta :: "nat \<Rightarrow> int list \<Rightarrow> event list" where
  "waitDelta i deltas =
     (if i < length deltas then [Wait (setTimeoutDelay (deltas ! i * 1000))] else [])"

text \<open>
  The loop \<^verbatim>\<open>for (let i = 0; i < sortedTimestamps.length; i++)\<close> over the indices still
  to visit. \<open>aborted i\<close> is what \<^verbatim>\<open>abortSignal.aborted\<close> holds when iteration \<open>i\<close> reads
  it, which is the only place where the driver looks at the signal; \<open>now i f\<close> is the
  clock when iteration \<open>i\<close> builds the message of property \<open>f\<close>.
\<close>

fun playback ::
  "(string \<Rightarrow> 'w \<Rightarrow> error option \<times> 'w) \<Rightarrow> (nat \<Rightarrow> string \<Rightarrow> int) \<Rightarrow> (nat \<Rightarrow> bool)
     \<Rightarrow> (int \<times> DataGroup) list \<Rightarrow> int list \<Rightarrow> int list \<Rightarrow> nat list \<Rightarrow> 'w run \<Rightarrow> 'w run"
where
  "playback send now aborted groupedData ts deltas [] r = r"
| "playback send now aborted groupedData ts deltas (i # is) r =
     (case r of
        Thrown e w l \<Rightarrow> r
      | Running w l \<Rightarrow>
          if aborted i then r
          else (case map_of groupedData (ts ! i) of
                  None \<Rightarrow> playback send now aborted groupedData ts deltas is r
                | Some datum \<Rightarrow>
                    (case sendFields send (now i) datum r of
                       Thrown e w' l' \<Rightarrow> Thrown e w' l'
                     | Running w' l' \<Rightarrow>
                         playback send now aborted groupedData ts deltas is
                           (Running w' (l' @ waitDelta i deltas)))))"

definition prepareAndSendMessages ::
  "(string \<Rightarrow> 'w \<Rightarrow> error option \<times> 'w) \<Rightarrow> (nat \<Rightarrow> string \<Rightarrow> int) \<Rightarrow> (nat \<Rightarrow> bool)
     \<Rightarrow> (int \<times> DataGroup) list \<Rightarrow> 'w \<Rightarrow> 'w run"
where
  "prepareAndSendMessages send now aborted groupedData w =
     (let ts = sortedTimestamps groupedData;
          deltas = timeDeltas ts
      in playback send now aborted groupedData ts deltas [0..<length ts] (Running w []))"

text \<open>The effects of a run.\<close>

fun effects :: "'w run \<Rightarrow> event list" where
  "effects (Running w l) = l"
| "effects (Thrown e w l) = l"

text \<open>
  The messages of one group in closed form: for a property and its type name, the message
  if the group holds a truthy value there.
\<close>

definition fieldMessage :: "(string \<Rightarrow> int) \<Rightarrow> DataGroup \<Rightarrow> string \<times> string \<Rightarrow> string list" where
  "fieldMessage now datum ft =
     (case map_of (props datum) (fst ft) of
        None \<Rightarrow> []
      | Some v \<Rightarrow>
          if truthy v
          then [JSON_stringify \<lparr>userId = userId datum, date = now (fst ft), value' = v,
                               measureType = snd ft\<rparr>]
          else [])"

text \<open>
  The same with ``populated'' read as ``present'': the message of every property that the
  group holds, whatever its value.
\<close>

definition presentFieldMessage :: "(string \<Rightarrow> int) \<Rightarrow> DataGroup \<Rightarrow> string \<times> string \<Rightarrow> string list" where
  "presentFieldMessage now datum ft =
     (case map_of (props datum) (fst ft) of
        None \<Rightarrow> []
      | Some v \<Rightarrow>
          [JSON_stringify \<lparr>userId = userId datum, date = now (fst ft), value' = v,
                           measureType = snd ft\<rparr>])"

subsection \<open>The effects of a run in closed form\<close>

text \<open>The messages of one group: those of its seven properties, in their order.\<close>

definition groupMessages :: "(string \<Rightarrow> int) \<Rightarrow> DataGroup \<Rightarrow> string list" where
  "groupMessages now datum = concat (map (fieldMessage now datum) recognizedFields)"

text \<open>
  What iteration \<open>i\<close> does when it is neither cancelled nor interrupted by an exception:
  it sends the messages of the group of the \<open>i\<close>-th timestamp and then waits.
\<close>

definition iterationEffects ::
  "(nat \<Rightarrow> string \<Rightarrow> int) \<Rightarrow> (int \<times> DataGroup) list \<Rightarrow> int list \<Rightarrow> int list \<Rightarrow> nat \<Rightarrow> event list"
where
  "iterationEffects now groupedData ts deltas i =
     (case map_of groupedData (ts ! i) of
        None \<Rightarrow> []
      | Some datum \<Rightarrow> map Send (groupMessages (now i) datum) @ waitDelta i deltas)"

subsection \<open>Example surroundings\<close>

text \<open>
  A transport that accepts every line and keeps what it was given; a clock; a cancellation
  signal that is found set from iteration \<open>k\<close> on, that is, one that was set between the
  moments when iterations \<open>k - 1\<close> and \<open>k\<close> read it.
\<close>

definition acceptAll :: "string \<Rightarrow> string list \<Rightarrow> error option \<times> string list" where
  "acceptAll line w = (None, w @ [line])"

definition exampleClock :: "nat \<Rightarrow> string \<Rightarrow> int" where
  "exampleClock i f = 1700000000000 + int i"

definition abortedFrom :: "nat \<Rightarrow> nat \<Rightarrow> bool" where
  "abortedFrom k i = (k \<le> i)"

section \<open>Device resolver\<close>

text \<open>\<^verbatim>\<open>/^[0-9A-F:]{17}$/i\<close>\<close>

definition hexColon :: "char \<Rightarrow> bool" where
  "hexColon c = (c \<in> set ''0123456789ABCDEFabcdef:'')"

definition isAddress :: "string \<Rightarrow> bool" where
  "isAddress s = (length s = 17 \<and> list_all hexColon s)"

text \<open>
  \<^verbatim>\<open>line.match(/Device ([A-Fa-f0-9:]{17}) (.+)/)\<close>: first the match that starts at the
  head of the string, then the leftmost match, which is the one \<^verbatim>\<open>match\<close> returns. The
  result is the pair of the two groups, address and name; the name runs up to the end of
  the line or the first line terminator and is not empty.
\<close>

definition matchDeviceAt :: "string \<Rightarrow> (string \<times> string) option" where
  "matchDeviceAt s =
     (if startsWith s ''Device '' then
        let r = drop 7 s; a = take 17 r; r' = drop 17 r
        in if length a = 17 \<and> list_all hexColon a \<and> startsWith r' '' '' then
             let n = takeWhile notLineTerminator (drop 1 r')
             in if n = [] then None else Some (a, n)
           else None
      else None)"

fun matchDevice :: "string \<Rightarrow> (string \<times> string) option" where
  "matchDevice [] = None"
| "matchDevice (c # cs) =
     (case matchDeviceAt (c # cs) of
        Some r \<Rightarrow> Some r
      | None \<Rightarrow> matchDevice cs)"

text \<open>The loop over the lines of the listing; \<open>None\<close> when it falls through.\<close>

fun firstMatching :: "string \<Rightarrow> string list \<Rightarrow> string option" where
  "firstMatching nameOrAddr [] = None"
| "firstMatching nameOrAddr (line # lines) =
     (case matchDevice line of
        None \<Rightarrow> firstMatching nameOrAddr lines
      | Some m \<Rightarrow>
          if includes_str (toLowerCase (snd m)) (toLowerCase nameOrAddr) then Some (fst m)
          else firstMatching nameOrAddr lines)"

text \<open>
  \<^verbatim>\<open>resolveAddress\<close>. \<open>exec cmd\<close> is the outcome of running the command: its error, or
  its standard output.
\<close>

definition resolveAddress ::
  "(string \<Rightarrow> error + string) \<Rightarrow> string \<Rightarrow> syscall list \<Rightarrow> (error + string) \<times> syscall list"
where
  "resolveAddress exec nameOrAddr w =
     (if isAddress nameOrAddr then (Inr nameOrAddr, w)
      else
        (case exec ''bluetoothctl devices Paired'' of
           Inl err \<Rightarrow> (Inl err, w @ [Exec ''bluetoothctl devices Paired''])
         | Inr stdout \<Rightarrow>
             (case firstMatching nameOrAddr (splitLines stdout) of
                Some a \<Rightarrow> (Inr a, w @ [Exec ''bluetoothctl devices Paired''])
              | None \<Rightarrow> (Inl DeviceNotFound, w @ [Exec ''bluetoothctl devices Paired'']))))"

text \<open>
  The paired devices as the specification has them: the address and name of every line of
  the listing that has the form \<^verbatim>\<open>Device <address> <name>\<close>, in the order of the lines.
\<close>

definition parseDevices :: "string \<Rightarrow> (string \<times> string) list" where
  "parseDevices stdout = List.map_filter matchDevice (splitLines stdout)"

definition nameContains :: "string \<Rightarrow> string \<times> string \<Rightarrow> bool" where
  "nameContains fragment device = includes_str (toLowerCase (snd device)) (toLowerCase fragment)"

text \<open>An example listing of two paired devices.\<close>

definition pairedListing :: "string \<Rightarrow> error + string" where
  "pairedListing cmd =
     Inr (''Device FC:02:96:04:33:AB Xiaomi'' @ [CHR 0x0A] @
          ''Device AA:BB:CC:DD:EE:FF Pixel 7'' @ [CHR 0x0A])"

section \<open>Channel negotiator\<close>













definition disconnected :: Bluetooth where
  "disconnected = \<lparr>deviceAddress = ''FC:02:96:04:33:AB'', rfcommProc = None, rfcommFd = None\<rparr>"

section \<open>Properties of the grouping\<close>

lemma groupMeasurementsByTimestamp_snoc:
  "groupMeasurementsByTimestamp E (ms @ [m]) = groupStep E (groupMeasurementsByTimestamp E ms) m"
  by (simp add: groupMeasurementsByTimestamp_def)

lemma find_snoc:
  "find P (xs @ [x]) = (case find P xs of None \<Rightarrow> (if P x then Some x else None) | Some y \<Rightarrow> Some y)"
  by (induction xs) auto

lemma find_append_cases:
  "find P (xs @ ys) = (case find P xs of None \<Rightarrow> find P ys | Some x \<Rightarrow> Some x)"
  by (induction xs) auto

lemma map_of_groupStep:
  "map_of (groupStep E G m) t =
     (if retainedAt t m
      then Some ((case map_of G t of
                    None \<Rightarrow> \<lparr>userId = userId m, timestamp = t, props = []\<rparr>
                  | Some d \<Rightarrow> d)
                 \<lparr>props :=
                    (case E (measureType m) of
                       None \<Rightarrow> (\<lambda>p. p)
                     | Some k \<Rightarrow> if k = [] then (\<lambda>p. p) else AList.update k (value' m))
                    (props (case map_of G t of
                              None \<Rightarrow> \<lparr>userId = userId m, timestamp = t, props = []\<rparr>
                            | Some d \<Rightarrow> d))\<rparr>)
      else map_of G t)"
  by (auto simp: groupStep_def retainedAt_def Let_def update_conv' split: option.splits)

lemma distinct_groupStep:
  "distinct (map fst G) \<Longrightarrow> distinct (map fst (groupStep E G m))"
  by (auto simp: groupStep_def Let_def distinct_update split: option.splits)

lemma keys_groupStep:
  "fst ` set (groupStep E G m) =
     (if ignoreMeasurementType (measureType m) then fst ` set G
      else insert (date m) (fst ` set G))"
  unfolding dom_map_of_conv_image_fst [symmetric]
  by (auto simp: map_of_groupStep retainedAt_def dom_def split: if_splits)

lemma groupStep_ignored:
  "ignoreMeasurementType (measureType m) \<Longrightarrow> groupStep E G m = G"
  by (simp add: groupStep_def)

lemma group_append:
  "groupMeasurementsByTimestamp E (xs @ ys) =
     foldl (groupStep E) (groupMeasurementsByTimestamp E xs) ys"
  by (simp add: groupMeasurementsByTimestamp_def)

lemma distinct_group: "distinct (map fst (groupMeasurementsByTimestamp E ms))"
  by (induction ms rule: rev_induct)
     (simp_all add: groupMeasurementsByTimestamp_def distinct_groupStep)

lemma keys_group:
  "fst ` set (groupMeasurementsByTimestamp E ms) =
     date ` {m \<in> set ms. \<not> ignoreMeasurementType (measureType m)}"
proof (induction ms rule: rev_induct)
  case Nil
  then show ?case by (simp add: groupMeasurementsByTimestamp_def)
next
  case (snoc m ms)
  then show ?case
    by (auto simp: groupMeasurementsByTimestamp_snoc keys_groupStep)
qed

lemma userId_group:
  "map_option userId (map_of (groupMeasurementsByTimestamp E ms) t) =
     map_option userId (find (retainedAt t) ms)"
proof (induction ms rule: rev_induct)
  case Nil
  then show ?case by (simp add: groupMeasurementsByTimestamp_def)
next
  case (snoc m ms)
  then show ?case
    by (auto simp: groupMeasurementsByTimestamp_snoc map_of_groupStep find_snoc
             split: option.splits)
qed

lemma timestamp_group:
  "map_of (groupMeasurementsByTimestamp E ms) t = Some g \<Longrightarrow> timestamp g = t"
proof (induction ms arbitrary: g rule: rev_induct)
  case Nil
  then show ?case by (simp add: groupMeasurementsByTimestamp_def)
next
  case (snoc m ms)
  then show ?case
    by (auto simp: groupMeasurementsByTimestamp_snoc map_of_groupStep
             split: option.splits if_splits)
qed

lemma props_distinct_group:
  "map_of (groupMeasurementsByTimestamp E ms) t = Some g \<Longrightarrow> distinct (map fst (props g))"
proof (induction ms arbitrary: g rule: rev_induct)
  case Nil
  then show ?case by (simp add: groupMeasurementsByTimestamp_def)
next
  case (snoc m ms)
  then show ?case
    by (auto simp: groupMeasurementsByTimestamp_snoc map_of_groupStep distinct_update
             split: option.splits if_splits)
qed

lemma lookupField_groupStep:
  "lookupField (groupStep E G m) t k =
     (if writesField E t k m then Some (value' m) else lookupField G t k)"
  by (auto simp: lookupField_def map_of_groupStep writesField_def update_conv'
           split: option.splits)

lemma lookupField_group:
  "lookupField (groupMeasurementsByTimestamp E ms) t k =
     map_option value' (find (writesField E t k) (rev ms))"
proof (induction ms rule: rev_induct)
  case Nil
  then show ?case by (simp add: groupMeasurementsByTimestamp_def lookupField_def)
next
  case (snoc m ms)
  then show ?case
    by (simp add: groupMeasurementsByTimestamp_snoc lookupField_groupStep)
qed

subsection \<open>The userId of a group\<close>

text \<open>
  Claim C10. For every flattened sequence of measurements, the groups have pairwise
  different timestamps, and the group of a timestamp \<open>t\<close>, if there is one, carries the
  userId of the first measurement of the sequence that is not ignored and bears the
  timestamp \<open>t\<close>. Whatever measurements follow, the userId of a group that exists stays
  what it is: measurements of several users that share a timestamp end up in one group
  under the first user's id.
\<close>

theorem group_userId_is_first_retained:
  "distinct (map fst (groupMeasurementsByTimestamp E (flatMeasurementData ds))) \<and>
   map_option userId (map_of (groupMeasurementsByTimestamp E (flatMeasurementData ds)) t) =
     map_option userId (find (retainedAt t) (flatMeasurementData ds)) \<and>
   (map_of (groupMeasurementsByTimestamp E (flatMeasurementData ds)) t = Some g \<longrightarrow>
      map_option userId
        (map_of (groupMeasurementsByTimestamp E (flatMeasurementData (ds @ ds'))) t) =
      Some (userId g))"
proof -
  let ?ms = "flatMeasurementData ds"
  have later: "map_option userId
        (map_of (groupMeasurementsByTimestamp E (flatMeasurementData (ds @ ds'))) t) =
      Some (userId g)"
    if g: "map_of (groupMeasurementsByTimestamp E ?ms) t = Some g"
  proof -
    from g userId_group [of E ?ms t]
    obtain f where f: "find (retainedAt t) ?ms = Some f" "userId f = userId g"
      by (cases "find (retainedAt t) ?ms") auto
    have "flatMeasurementData (ds @ ds') = ?ms @ flatMeasurementData ds'"
      by (simp add: flatMeasurementData_def)
    then show ?thesis
      using f by (simp add: userId_group find_append_cases)
  qed
  show ?thesis
    using later by (simp add: distinct_group userId_group)
qed

theorem group_userId_is_first_retained_witness:
  "map_of (groupMeasurementsByTimestamp MeasurementTypeEnum (flatMeasurementData
      [\<lparr>data = [\<lparr>userId = 1, date = 1, value' = NumArray [59], measureType = ''HeartRate''\<rparr>]\<rparr>])) 1
     = Some \<lparr>userId = 1, timestamp = 1, props = [(''heartRate'', NumArray [59])]\<rparr> \<and>
   map_option userId (map_of (groupMeasurementsByTimestamp MeasurementTypeEnum (flatMeasurementData
      ([\<lparr>data = [\<lparr>userId = 1, date = 1, value' = NumArray [59], measureType = ''HeartRate''\<rparr>]\<rparr>] @
       [\<lparr>data = [\<lparr>userId = 2, date = 1, value' = NumArray [16], measureType = ''Respiration''\<rparr>]\<rparr>]))) 1)
     = Some 1"
proof -
  have g: "map_of (groupMeasurementsByTimestamp MeasurementTypeEnum (flatMeasurementData
      [\<lparr>data = [\<lparr>userId = 1, date = 1, value' = NumArray [59], measureType = ''HeartRate''\<rparr>]\<rparr>])) 1
     = Some \<lparr>userId = 1, timestamp = 1, props = [(''heartRate'', NumArray [59])]\<rparr>"
    by (simp add: flatMeasurementData_def groupMeasurementsByTimestamp_def groupStep_def
          ignoreMeasurementType_def MeasurementTypeEnum_def)
  show ?thesis
    using g group_userId_is_first_retained
      [of MeasurementTypeEnum
          "[\<lparr>data = [\<lparr>userId = 1, date = 1, value' = NumArray [59], measureType = ''HeartRate''\<rparr>]\<rparr>]"
          1
          "\<lparr>userId = 1, timestamp = 1, props = [(''heartRate'', NumArray [59])]\<rparr>"
          "[\<lparr>data = [\<lparr>userId = 2, date = 1, value' = NumArray [16], measureType = ''Respiration''\<rparr>]\<rparr>]"]
    by simp
qed

subsection \<open>Ignored and unrecognized measurement types\<close>

lemma group_drop_ignored:
  assumes "ignoreMeasurementType (measureType m)"
  shows "groupMeasurementsByTimestamp E (xs @ m # ys) = groupMeasurementsByTimestamp E (xs @ ys)"
  using assms by (simp add: groupMeasurementsByTimestamp_def groupStep_ignored)

lemma lookupField_drop_keyless:
  assumes "E (measureType m) = None \<or> E (measureType m) = Some []"
  shows "lookupField (groupMeasurementsByTimestamp E (xs @ m # ys)) t k =
         lookupField (groupMeasurementsByTimestamp E (xs @ ys)) t k"
proof -
  have "\<not> writesField E t k m"
    using assms by (auto simp: writesField_def)
  then show ?thesis
    by (simp add: lookupField_group find_append_cases split: option.splits)
qed

text \<open>
  Claim C2, as the code has it. A measurement whose type is one of the two ignored codes
  is dropped before grouping: the result is the same as without it. A measurement of any
  other type for which the table has no property name sets no property of any group; but
  the group of its timestamp is found or created all the same, so every measurement that
  is not ignored has a group under its timestamp.
\<close>

theorem ignored_dropped_keyless_sets_no_field:
  "(ignoreMeasurementType (measureType m) \<longrightarrow>
      groupMeasurementsByTimestamp E (xs @ m # ys) = groupMeasurementsByTimestamp E (xs @ ys)) \<and>
   (E (measureType m) = None \<or> E (measureType m) = Some [] \<longrightarrow>
      lookupField (groupMeasurementsByTimestamp E (xs @ m # ys)) t k =
      lookupField (groupMeasurementsByTimestamp E (xs @ ys)) t k) \<and>
   (\<not> ignoreMeasurementType (measureType m) \<longrightarrow>
      date m \<in> fst ` set (groupMeasurementsByTimestamp E (xs @ m # ys)))"
proof (intro conjI impI)
  assume "ignoreMeasurementType (measureType m)"
  then show "groupMeasurementsByTimestamp E (xs @ m # ys) = groupMeasurementsByTimestamp E (xs @ ys)"
    by (rule group_drop_ignored)
next
  assume "E (measureType m) = None \<or> E (measureType m) = Some []"
  then show "lookupField (groupMeasurementsByTimestamp E (xs @ m # ys)) t k =
             lookupField (groupMeasurementsByTimestamp E (xs @ ys)) t k"
    by (rule lookupField_drop_keyless)
next
  assume "\<not> ignoreMeasurementType (measureType m)"
  then show "date m \<in> fst ` set (groupMeasurementsByTimestamp E (xs @ m # ys))"
    by (auto simp: keys_group)
qed

theorem ignored_dropped_keyless_sets_no_field_witness:
  "groupMeasurementsByTimestamp MeasurementTypeEnum
     ([\<lparr>userId = 1, date = 1, value' = NumArray [59], measureType = ''HeartRate''\<rparr>] @
      \<lparr>userId = 1, date = 1, value' = NumArray [7], measureType = ''ECG''\<rparr> # []) =
   groupMeasurementsByTimestamp MeasurementTypeEnum
     ([\<lparr>userId = 1, date = 1, value' = NumArray [59], measureType = ''HeartRate''\<rparr>] @ []) \<and>
   lookupField (groupMeasurementsByTimestamp MeasurementTypeEnum
     ([] @ \<lparr>userId = 9, date = 60, value' = NumArray [21], measureType = ''Temperature''\<rparr> # []))
     60 ''heartRate'' =
   lookupField (groupMeasurementsByTimestamp MeasurementTypeEnum ([] @ [])) 60 ''heartRate'' \<and>
   60 \<in> fst ` set (groupMeasurementsByTimestamp MeasurementTypeEnum
     ([] @ \<lparr>userId = 9, date = 60, value' = NumArray [21], measureType = ''Temperature''\<rparr> # []))"
proof -
  have ecg: "ignoreMeasurementType
     (measureType \<lparr>userId = 1, date = 1, value' = NumArray [7], measureType = ''ECG''\<rparr>)"
    by (simp add: ignoreMeasurementType_def)
  have temp: "MeasurementTypeEnum
       (measureType \<lparr>userId = 9, date = 60, value' = NumArray [21], measureType = ''Temperature''\<rparr>)
       = None"
     "\<not> ignoreMeasurementType
       (measureType \<lparr>userId = 9, date = 60, value' = NumArray [21], measureType = ''Temperature''\<rparr>)"
    by (simp_all add: MeasurementTypeEnum_def ignoreMeasurementType_def)
  show ?thesis
    using ecg temp
      ignored_dropped_keyless_sets_no_field
        [of "\<lparr>userId = 1, date = 1, value' = NumArray [7], measureType = ''ECG''\<rparr>"
            MeasurementTypeEnum
            "[\<lparr>userId = 1, date = 1, value' = NumArray [59], measureType = ''HeartRate''\<rparr>]"
            "[]" 0 "[]"]
      ignored_dropped_keyless_sets_no_field
        [of "\<lparr>userId = 9, date = 60, value' = NumArray [21], measureType = ''Temperature''\<rparr>"
            MeasurementTypeEnum "[]" "[]" 60 "''heartRate''"]
    by simp
qed

text \<open>
  The claim as it is written fails for a type that is neither ignored nor in the table: the
  measurement is not dropped before grouping, it leaves a group behind.
\<close>

theorem unrecognized_type_creates_group:
  "\<not> ignoreMeasurementType ''Temperature'' \<and>
   MeasurementTypeEnum ''Temperature'' = None \<and>
   groupMeasurementsByTimestamp MeasurementTypeEnum
     [\<lparr>userId = 9, date = 60, value' = NumArray [21], measureType = ''Temperature''\<rparr>] =
     [(60, \<lparr>userId = 9, timestamp = 60, props = []\<rparr>)] \<and>
   groupMeasurementsByTimestamp MeasurementTypeEnum
     [\<lparr>userId = 9, date = 60, value' = NumArray [21], measureType = ''Temperature''\<rparr>] \<noteq>
   groupMeasurementsByTimestamp MeasurementTypeEnum []"
  by (simp add: groupMeasurementsByTimestamp_def groupStep_def ignoreMeasurementType_def
        MeasurementTypeEnum_def)

subsection \<open>Grouping and flattening\<close>

lemma find_filter:
  "find P (filter Q xs) = find (\<lambda>x. Q x \<and> P x) xs"
  by (induction xs) auto

lemma lastWins_iff:
  "m \<in> set (lastWins key xs) \<longleftrightarrow> find (\<lambda>x. key x = key m) (rev xs) = Some m"
proof (induction xs)
  case Nil
  then show ?case by simp
next
  case (Cons x xs)
  show ?case
  proof (cases "list_ex (\<lambda>y. key y = key x) xs")
    case True
    then obtain y where y: "y \<in> set xs" "key y = key x"
      by (auto simp: list_ex_iff)
    have "find (\<lambda>x. key x = key m) (rev xs) \<noteq> None" if "key x = key m"
      using y that by (auto simp: find_None_iff)
    then show ?thesis
      using True Cons.IH by (auto simp: find_snoc split: option.splits)
  next
    case False
    then have none: "find (\<lambda>y. key y = key x) (rev xs) = None"
      by (auto simp: list_ex_iff find_None_iff)
    show ?thesis
      using False Cons.IH none
      by (auto simp: find_snoc split: option.splits)
  qed
qed

lemma MeasurementTypeEnum_Some_iff:
  "MeasurementTypeEnum s = Some k \<longleftrightarrow>
     (s, k) \<in> set [(''HeartRate'', ''heartRate''),
                  (''BreathFrequency'', ''breathFrequency''),
                  (''Respiration'', ''respiration''),
                  (''AccelerationX'', ''accelerationX''),
                  (''AccelerationY'', ''accelerationY''),
                  (''AccelerationZ'', ''accelerationZ''),
                  (''Position'', ''position''),
                  (''R2R'', ''r2r''),
                  (''ECG'', ''ecg'')]"
  unfolding MeasurementTypeEnum_def by (rule map_of_eq_Some_iff) simp

lemma writesField_recognized:
  assumes "(f, T) \<in> set recognizedFields"
  shows "writesField MeasurementTypeEnum t f y \<longleftrightarrow> date y = t \<and> measureType y = T"
  using assms
  by (auto simp: recognizedFields_def writesField_def retainedAt_def ignoreMeasurementType_def
        MeasurementTypeEnum_Some_iff)

lemma recognized_not_ignored:
  "recognized m \<Longrightarrow> \<not> ignoreMeasurementType (measureType m)"
  by (auto simp: recognized_def recognizedFields_def ignoreMeasurementType_def)

lemma recognized_iff:
  "recognized m \<longleftrightarrow> (\<exists>f. (f, measureType m) \<in> set recognizedFields)"
  by (force simp: recognized_def)

lemma same_field_pred:
  assumes ft: "(f, T) \<in> set recognizedFields" and m': "measureType m' = T" "date m' = t"
  shows "(\<lambda>y. recognized y \<and> fieldKey MeasurementTypeEnum y = fieldKey MeasurementTypeEnum m') =
         writesField MeasurementTypeEnum t f"
proof
  fix y
  have wm': "writesField MeasurementTypeEnum t f m'"
    using ft m' by (simp add: writesField_recognized)
  then have E: "MeasurementTypeEnum T = Some f" "f \<noteq> []"
    using m' by (auto simp: writesField_def)
  show "(recognized y \<and> fieldKey MeasurementTypeEnum y = fieldKey MeasurementTypeEnum m') =
        writesField MeasurementTypeEnum t f y"
  proof
    assume a: "recognized y \<and> fieldKey MeasurementTypeEnum y = fieldKey MeasurementTypeEnum m'"
    then show "writesField MeasurementTypeEnum t f y"
      using E m' recognized_not_ignored [of y]
      by (auto simp: writesField_def retainedAt_def fieldKey_def)
  next
    assume "writesField MeasurementTypeEnum t f y"
    then have "date y = t" "measureType y = T"
      using ft by (simp_all add: writesField_recognized)
    then show "recognized y \<and> fieldKey MeasurementTypeEnum y = fieldKey MeasurementTypeEnum m'"
      using ft m' by (auto simp: recognized_iff fieldKey_def)
  qed
qed

lemma set_map_filter_iff:
  "y \<in> set (List.map_filter h xs) \<longleftrightarrow> (\<exists>x \<in> set xs. h x = Some y)"
  by (induction xs) (auto split: option.splits)

lemma find_SomeD:
  "find P xs = Some x \<Longrightarrow> P x \<and> x \<in> set xs"
  by (induction xs) (auto split: if_splits)

lemma set_flattenGroup:
  "set (flattenGroup g) =
     {\<lparr>userId = userId g, date = timestamp g, value' = v, measureType = T\<rparr> | f T v.
        (f, T) \<in> set recognizedFields \<and> map_of (props g) f = Some v}"
  by (force simp: flattenGroup_def set_map_filter_iff)

lemma flattenGroups_subset:
  assumes x: "x \<in> set (flattenGroups (groupMeasurementsByTimestamp MeasurementTypeEnum ms))"
  shows "x \<in> relabel ms ` set (lastWins (fieldKey MeasurementTypeEnum) (filter recognized ms))"
proof -
  let ?G = "groupMeasurementsByTimestamp MeasurementTypeEnum ms"
  from x obtain t g f T v where tg: "(t, g) \<in> set ?G"
    and ft: "(f, T) \<in> set recognizedFields"
    and v: "map_of (props g) f = Some v"
    and xeq: "x = \<lparr>userId = userId g, date = timestamp g, value' = v, measureType = T\<rparr>"
    by (auto simp: flattenGroups_def set_flattenGroup)
  have g: "map_of ?G t = Some g"
    using tg distinct_group by simp
  then have ts: "timestamp g = t"
    by (rule timestamp_group)
  have "lookupField ?G t f = Some v"
    using g v by (simp add: lookupField_def)
  then obtain m' where m': "find (writesField MeasurementTypeEnum t f) (rev ms) = Some m'"
    and vm: "value' m' = v"
    by (auto simp: lookupField_group)
  from m' have wm: "writesField MeasurementTypeEnum t f m'"
    by (auto dest: find_SomeD)
  then have dm: "date m' = t" "measureType m' = T"
    using ft by (simp_all add: writesField_recognized)
  from g userId_group [of MeasurementTypeEnum ms t]
  obtain fs where fs: "find (retainedAt t) ms = Some fs" "userId fs = userId g"
    by (cases "find (retainedAt t) ms") auto
  have "x = relabel ms m'"
    using xeq ts vm dm fs by (cases m') (simp add: relabel_def)
  moreover have "m' \<in> set (lastWins (fieldKey MeasurementTypeEnum) (filter recognized ms))"
    using m' same_field_pred [OF ft dm(2) dm(1)]
    by (simp add: lastWins_iff rev_filter find_filter)
  ultimately show ?thesis
    by blast
qed

lemma flattenGroups_supset:
  assumes m': "m' \<in> set (lastWins (fieldKey MeasurementTypeEnum) (filter recognized ms))"
  shows "relabel ms m' \<in> set (flattenGroups (groupMeasurementsByTimestamp MeasurementTypeEnum ms))"
proof -
  let ?G = "groupMeasurementsByTimestamp MeasurementTypeEnum ms"
  from m' have fm:
    "find (\<lambda>y. recognized y \<and> fieldKey MeasurementTypeEnum y = fieldKey MeasurementTypeEnum m')
       (rev ms) = Some m'"
    by (simp add: lastWins_iff rev_filter find_filter)
  then have rec: "recognized m'" and mem: "m' \<in> set ms"
    by (auto dest: find_SomeD)
  from rec obtain f where ft: "(f, measureType m') \<in> set recognizedFields"
    by (auto simp: recognized_iff)
  have wf: "find (writesField MeasurementTypeEnum (date m') f) (rev ms) = Some m'"
    using fm same_field_pred [OF ft refl refl] by simp
  have "retainedAt (date m') m'"
    using rec by (simp add: retainedAt_def recognized_not_ignored)
  then obtain fs where fs: "find (retainedAt (date m')) ms = Some fs"
    using mem by (cases "find (retainedAt (date m')) ms") (auto simp: find_None_iff)
  with userId_group [of MeasurementTypeEnum ms "date m'"]
  obtain g where g: "map_of ?G (date m') = Some g" and ug: "userId g = userId fs"
    by (cases "map_of ?G (date m')") auto
  have ts: "timestamp g = date m'"
    using g by (rule timestamp_group)
  have "lookupField ?G (date m') f = Some (value' m')"
    using wf by (simp add: lookupField_group)
  then have v: "map_of (props g) f = Some (value' m')"
    using g by (simp add: lookupField_def)
  have "relabel ms m' =
        \<lparr>userId = userId g, date = timestamp g, value' = value' m', measureType = measureType m'\<rparr>"
    using fs ug ts by (cases m') (simp add: relabel_def)
  then have "relabel ms m' \<in> set (flattenGroup g)"
    using ft v by (auto simp: set_flattenGroup)
  moreover have "(date m', g) \<in> set ?G"
    using g by (rule map_of_SomeD)
  ultimately show ?thesis
    by (force simp: flattenGroups_def)
qed

lemma distinct_map_filter_types:
  fixes h :: "string \<times> string \<Rightarrow> Measurement option"
  assumes "distinct (map snd fts)"
    and h: "\<And>ft x. h ft = Some x \<Longrightarrow> measureType x = snd ft"
  shows "distinct (map (\<lambda>m. (date m, measureType m)) (List.map_filter h fts))"
  using assms(1)
proof (induction fts)
  case Nil
  then show ?case by simp
next
  case (Cons ft fts)
  show ?case
  proof (cases "h ft")
    case None
    then show ?thesis
      using Cons by simp
  next
    case (Some x)
    have "snd ft \<notin> snd ` set fts"
      using Cons.prems by simp
    then have other: "snd ft' \<noteq> snd ft" if "ft' \<in> set fts" for ft'
      using that by (metis imageI)
    have "(date x, measureType x) \<notin>
        (\<lambda>m. (date m, measureType m)) ` set (List.map_filter h fts)"
    proof
      assume "(date x, measureType x) \<in>
        (\<lambda>m. (date m, measureType m)) ` set (List.map_filter h fts)"
      then obtain y where y: "y \<in> set (List.map_filter h fts)" "measureType y = measureType x"
        by auto
      then obtain ft' where ft': "ft' \<in> set fts" "h ft' = Some y"
        by (auto simp: set_map_filter_iff)
      have "measureType y = snd ft'" "measureType x = snd ft"
        using ft' Some by (simp_all add: h)
      then show False
        using y other [OF ft'(1)] by simp
    qed
    then show ?thesis
      using Some Cons by simp
  qed
qed

lemma distinct_flattenGroup:
  "distinct (map (\<lambda>m. (date m, measureType m)) (flattenGroup g))"
  unfolding flattenGroup_def
  by (rule distinct_map_filter_types) (auto simp: recognizedFields_def)

lemma date_flattenGroup:
  "x \<in> set (flattenGroup g) \<Longrightarrow> date x = timestamp g"
  by (auto simp: set_flattenGroup)

lemma distinct_flattenGroups_aux:
  assumes "distinct (map fst G)" and "\<And>t g. (t, g) \<in> set G \<Longrightarrow> timestamp g = t"
  shows "distinct (map (\<lambda>m. (date m, measureType m)) (flattenGroups G))"
  using assms
proof (induction G)
  case Nil
  then show ?case by (simp add: flattenGroups_def)
next
  case (Cons tg G)
  obtain t g where tg: "tg = (t, g)"
    by (cases tg)
  have rest: "distinct (map (\<lambda>m. (date m, measureType m)) (flattenGroups G))"
    using Cons by simp
  have t: "timestamp g = t"
    using Cons.prems(2) [of t g] tg by simp
  have dates: "date x \<in> fst ` set G" if "x \<in> set (flattenGroups G)" for x
  proof -
    from that obtain t' g' where g': "(t', g') \<in> set G" "x \<in> set (flattenGroup g')"
      by (auto simp: flattenGroups_def)
    then have "date x = t'"
      using Cons.prems(2) [of t' g'] by (simp add: date_flattenGroup)
    then show ?thesis
      using g' by force
  qed
  have "t \<notin> fst ` set G"
    using Cons.prems(1) tg by simp
  then have "date y \<noteq> t" if "y \<in> set (flattenGroups G)" for y
    using dates [OF that] by metis
  moreover have "date x = t" if "x \<in> set (flattenGroup g)" for x
    using that t by (simp add: date_flattenGroup)
  ultimately have "set (map (\<lambda>m. (date m, measureType m)) (flattenGroup g)) \<inter>
             set (map (\<lambda>m. (date m, measureType m)) (flattenGroups G)) = {}"
    by fastforce
  moreover have "flattenGroups (tg # G) = flattenGroup g @ flattenGroups G"
    using tg by (simp add: flattenGroups_def)
  ultimately show ?case
    using rest distinct_flattenGroup [of g] by simp
qed

text \<open>
  Claim C1, as the code has it. For every sequence of measurements, grouping by timestamp
  and flattening the fields of the groups yields exactly the measurements of the seven
  recognized types, the last one in input order for each timestamp and field, each with
  its own timestamp, type and value and with the userId of the first measurement of its
  timestamp that is not ignored; no timestamp and type comes out twice.
\<close>

theorem group_then_flatten:
  "set (flattenGroups (groupMeasurementsByTimestamp MeasurementTypeEnum ms)) =
     relabel ms ` set (lastWins (fieldKey MeasurementTypeEnum) (filter recognized ms)) \<and>
   distinct (map (\<lambda>m. (date m, measureType m))
     (flattenGroups (groupMeasurementsByTimestamp MeasurementTypeEnum ms)))"
proof
  show "set (flattenGroups (groupMeasurementsByTimestamp MeasurementTypeEnum ms)) =
        relabel ms ` set (lastWins (fieldKey MeasurementTypeEnum) (filter recognized ms))"
    using flattenGroups_subset [of _ ms] flattenGroups_supset [of _ ms] by blast
next
  have "timestamp g = t"
    if "(t, g) \<in> set (groupMeasurementsByTimestamp MeasurementTypeEnum ms)" for t g
    using that distinct_group [of MeasurementTypeEnum ms] timestamp_group [of MeasurementTypeEnum ms t g]
    by simp
  then show "distinct (map (\<lambda>m. (date m, measureType m))
     (flattenGroups (groupMeasurementsByTimestamp MeasurementTypeEnum ms)))"
    by (intro distinct_flattenGroups_aux distinct_group)
qed

theorem group_then_flatten_witness:
  "set (flattenGroups (groupMeasurementsByTimestamp MeasurementTypeEnum
     [\<lparr>userId = 1, date = 1, value' = NumArray [59], measureType = ''HeartRate''\<rparr>,
      \<lparr>userId = 2, date = 1, value' = NumArray [16], measureType = ''Respiration''\<rparr>,
      \<lparr>userId = 3, date = 1, value' = NumArray [60], measureType = ''HeartRate''\<rparr>])) =
   {\<lparr>userId = 1, date = 1, value' = NumArray [16], measureType = ''Respiration''\<rparr>,
    \<lparr>userId = 1, date = 1, value' = NumArray [60], measureType = ''HeartRate''\<rparr>}"
  using group_then_flatten
    [of "[\<lparr>userId = 1, date = 1, value' = NumArray [59], measureType = ''HeartRate''\<rparr>,
          \<lparr>userId = 2, date = 1, value' = NumArray [16], measureType = ''Respiration''\<rparr>,
          \<lparr>userId = 3, date = 1, value' = NumArray [60], measureType = ''HeartRate''\<rparr>]"]
  by (simp add: relabel_def retainedAt_def ignoreMeasurementType_def recognized_def
        recognizedFields_def fieldKey_def MeasurementTypeEnum_def)

text \<open>
  The claim as it is written fails when two users share a timestamp: the second
  measurement comes back under the first user's id, so the retained measurements are not
  reconstructed exactly.
\<close>

theorem flatten_loses_second_user:
  "set (flattenGroups (groupMeasurementsByTimestamp MeasurementTypeEnum
     [\<lparr>userId = 1, date = 1, value' = NumArray [59], measureType = ''HeartRate''\<rparr>,
      \<lparr>userId = 2, date = 1, value' = NumArray [16], measureType = ''Respiration''\<rparr>])) \<noteq>
   set (lastWins (fieldKey MeasurementTypeEnum) (retained
     [\<lparr>userId = 1, date = 1, value' = NumArray [59], measureType = ''HeartRate''\<rparr>,
      \<lparr>userId = 2, date = 1, value' = NumArray [16], measureType = ''Respiration''\<rparr>]))"
  by (simp add: flattenGroups_def flattenGroup_def groupMeasurementsByTimestamp_def groupStep_def
        retained_def ignoreMeasurementType_def recognizedFields_def fieldKey_def
        MeasurementTypeEnum_def doubleton_eq_iff)

section \<open>Properties of the playback driver\<close>

subsection \<open>Timestamps and deltas\<close>

lemma sortedTimestamps_strict:
  "distinct (map fst groupedData) \<Longrightarrow> sorted_wrt (<) (sortedTimestamps groupedData)"
  by (simp add: sortedTimestamps_def strict_sorted_iff)

lemma set_sortedTimestamps:
  "set (sortedTimestamps groupedData) = fst ` set groupedData"
  by (simp add: sortedTimestamps_def)

lemma length_timeDeltas: "length (timeDeltas ts) = length ts - 1"
  by (simp add: timeDeltas_def)

lemma nth_timeDeltas:
  assumes "Suc i < length ts"
  shows "timeDeltas ts ! i = ts ! Suc i - ts ! i"
proof -
  have "i < length (drop 1 ts)"
    using assms by simp
  then show ?thesis
    by (simp add: timeDeltas_def nth_enumerate_eq)
qed

lemma waitDelta_timeDeltas:
  "waitDelta i (timeDeltas ts) =
     (if Suc i < length ts then [Wait (setTimeoutDelay ((ts ! Suc i - ts ! i) * 1000))] else [])"
  by (auto simp: waitDelta_def length_timeDeltas nth_timeDeltas)

lemma setTimeoutDelay_in_range:
  "1 \<le> ms \<Longrightarrow> ms \<le> 2147483647 \<Longrightarrow> setTimeoutDelay ms = ms"
  by (simp add: setTimeoutDelay_def)

lemma map_of_sortedTimestamps:
  assumes "i < length (sortedTimestamps groupedData)"
  shows "\<exists>datum. map_of groupedData (sortedTimestamps groupedData ! i) = Some datum"
proof -
  have "sortedTimestamps groupedData ! i \<in> fst ` set groupedData"
    using assms nth_mem [OF assms] by (simp add: set_sortedTimestamps)
  then show ?thesis
    by (cases "map_of groupedData (sortedTimestamps groupedData ! i)")
       (auto simp: map_of_eq_None_iff)
qed

subsection \<open>One group\<close>

lemma sendField_Thrown [simp]:
  "sendField send now datum ft (Thrown e w l) = Thrown e w l"
  by (simp add: sendField_def)

lemma fold_sendField_Thrown [simp]:
  "fold (sendField send now datum) fts (Thrown e w l) = Thrown e w l"
  by (induction fts) simp_all

lemma sendField_cases:
  "(\<exists>w'. sendField send now datum ft (Running w l) =
           Running w' (l @ map Send (fieldMessage now datum ft))) \<or>
   (\<exists>e w'. sendField send now datum ft (Running w l) = Thrown e w' l \<and>
           fieldMessage now datum ft \<noteq> [] \<and> fst (send (hd (fieldMessage now datum ft)) w) = Some e)"
  by (auto simp: sendField_def fieldMessage_def Let_def split: option.splits prod.splits)

lemma sendField_accepted:
  assumes "\<And>line w. fst (send line w) = None"
  shows "\<exists>w'. sendField send now datum ft (Running w l) =
           Running w' (l @ map Send (fieldMessage now datum ft))"
  using sendField_cases [of send now datum ft w l] assms by auto

lemma fold_sendField_accepted:
  assumes "\<And>line w. fst (send line w) = None"
  shows "\<exists>w'. fold (sendField send now datum) fts (Running w l) =
           Running w' (l @ map Send (concat (map (fieldMessage now datum) fts)))"
proof (induction fts arbitrary: w l)
  case Nil
  then show ?case by simp
next
  case (Cons ft fts)
  from assms have "\<exists>w'. sendField send now datum ft (Running w l) =
      Running w' (l @ map Send (fieldMessage now datum ft))"
    by (rule sendField_accepted)
  then obtain w1 where "sendField send now datum ft (Running w l) =
      Running w1 (l @ map Send (fieldMessage now datum ft))"
    by blast
  then show ?case
    using Cons [of w1 "l @ map Send (fieldMessage now datum ft)"] by simp
qed

lemma fold_sendField_prefix:
  "\<exists>p q. effects (fold (sendField send now datum) fts (Running w l)) = l @ map Send p \<and>
         p @ q = concat (map (fieldMessage now datum) fts) \<and>
         ((\<exists>w'. fold (sendField send now datum) fts (Running w l) = Running w' (l @ map Send p)) \<and> q = []
          \<or> (\<exists>e w'. fold (sendField send now datum) fts (Running w l) = Thrown e w' (l @ map Send p)))"
proof (induction fts arbitrary: w l)
  case Nil
  then show ?case by simp
next
  case (Cons ft fts)
  from sendField_cases [of send now datum ft w l]
  show ?case
  proof (elim disjE exE conjE)
    fix w1
    assume s: "sendField send now datum ft (Running w l) =
      Running w1 (l @ map Send (fieldMessage now datum ft))"
    from Cons [of w1 "l @ map Send (fieldMessage now datum ft)"]
    obtain p q where pq:
      "effects (fold (sendField send now datum) fts
          (Running w1 (l @ map Send (fieldMessage now datum ft)))) =
        (l @ map Send (fieldMessage now datum ft)) @ map Send p"
      "p @ q = concat (map (fieldMessage now datum) fts)"
      "(\<exists>w'. fold (sendField send now datum) fts
           (Running w1 (l @ map Send (fieldMessage now datum ft))) =
           Running w' ((l @ map Send (fieldMessage now datum ft)) @ map Send p)) \<and> q = []
       \<or> (\<exists>e w'. fold (sendField send now datum) fts
           (Running w1 (l @ map Send (fieldMessage now datum ft))) =
           Thrown e w' ((l @ map Send (fieldMessage now datum ft)) @ map Send p))"
      by blast
    show ?thesis
      using s pq
      by (intro exI [of _ "fieldMessage now datum ft @ p"] exI [of _ q]) auto
  next
    fix e w1
    assume s: "sendField send now datum ft (Running w l) = Thrown e w1 l"
    show ?thesis
      using s
      by (intro exI [of _ "[]"] exI [of _ "concat (map (fieldMessage now datum) (ft # fts))"]) simp
  qed
qed

lemma sendFields_accepted:
  assumes "\<And>line w. fst (send line w) = None"
  shows "\<exists>w'. sendFields send now datum (Running w l) =
           Running w' (l @ map Send (groupMessages now datum))"
  unfolding sendFields_def groupMessages_def
  by (rule fold_sendField_accepted) (rule assms)

subsection \<open>The loop\<close>

lemma playback_Thrown [simp]:
  "playback send now aborted groupedData ts deltas is (Thrown e w l) = Thrown e w l"
  by (cases "is") simp_all

lemma playback_aborted:
  assumes "aborted i"
  shows "playback send now aborted groupedData ts deltas (i # is) r = r"
  using assms by (cases r) simp_all

lemma playback_append:
  assumes "\<And>i. i \<in> set xs \<Longrightarrow> \<not> aborted i"
  shows "playback send now aborted groupedData ts deltas (xs @ ys) r =
         playback send now aborted groupedData ts deltas ys
           (playback send now aborted groupedData ts deltas xs r)"
  using assms
proof (induction xs arbitrary: r)
  case Nil
  then show ?case by simp
next
  case (Cons i xs)
  then show ?case
    by (cases r) (auto split: option.splits run.splits)
qed

lemma playback_cong_aborted:
  assumes "\<And>i. i \<in> set is \<Longrightarrow> aborted i = aborted' i"
  shows "playback send now aborted groupedData ts deltas is r =
         playback send now aborted' groupedData ts deltas is r"
  using assms
proof (induction "is" arbitrary: r)
  case Nil
  then show ?case by simp
next
  case (Cons i "is")
  then show ?case
    by (cases r) (auto split: option.splits run.splits)
qed

lemma playback_cancelled_at:
  assumes k: "k \<le> n" and before: "\<And>i. i < k \<Longrightarrow> \<not> aborted i"
    and at: "k < n \<Longrightarrow> aborted k"
  shows "playback send now aborted groupedData ts deltas [0..<n] r =
         playback send now (\<lambda>i. False) groupedData ts deltas [0..<k] r"
proof -
  have split: "[0..<n] = [0..<k] @ [k..<n]"
    using k by (metis le_add_diff_inverse upt_add_eq_append zero_le)
  have "playback send now aborted groupedData ts deltas [k..<n] r' = r'" for r'
  proof (cases "k < n")
    case True
    then have "[k..<n] = k # [Suc k..<n]"
      by (simp add: upt_conv_Cons)
    moreover have "playback send now aborted groupedData ts deltas (k # [Suc k..<n]) r' = r'"
      using at [OF True] by (rule playback_aborted)
    ultimately show ?thesis
      by (simp only:)
  next
    case False
    then show ?thesis by simp
  qed
  then have "playback send now aborted groupedData ts deltas [0..<n] r =
             playback send now aborted groupedData ts deltas [0..<k] r"
    unfolding split using before by (subst playback_append) auto
  also have "\<dots> = playback send now (\<lambda>i. False) groupedData ts deltas [0..<k] r"
    using before by (intro playback_cong_aborted) auto
  finally show ?thesis .
qed

lemma iterationEffects_None:
  "map_of groupedData (ts ! i) = None \<Longrightarrow> iterationEffects now groupedData ts deltas i = []"
  by (simp add: iterationEffects_def)

lemma iterationEffects_Some:
  "map_of groupedData (ts ! i) = Some datum \<Longrightarrow>
   iterationEffects now groupedData ts deltas i =
     map Send (groupMessages (now i) datum) @ waitDelta i deltas"
  by (simp add: iterationEffects_def)

lemma playback_accepted:
  assumes acc: "\<And>line w. fst (send line w) = None"
    and run: "\<And>i. i \<in> set is \<Longrightarrow> \<not> aborted i"
  shows "\<exists>w'. playback send now aborted groupedData ts deltas is (Running w l) =
           Running w' (l @ concat (map (iterationEffects now groupedData ts deltas) is))"
  using run
proof (induction "is" arbitrary: w l)
  case Nil
  then show ?case by simp
next
  case (Cons i "is")
  have i: "\<not> aborted i"
    using Cons.prems by simp
  show ?case
  proof (cases "map_of groupedData (ts ! i)")
    case None
    then show ?thesis
      using i Cons.IH [of w l] Cons.prems by (simp add: iterationEffects_None)
  next
    case (Some datum)
    from acc have "\<exists>w'. sendFields send (now i) datum (Running w l) =
        Running w' (l @ map Send (groupMessages (now i) datum))"
      by (rule sendFields_accepted)
    then obtain w1 where w1: "sendFields send (now i) datum (Running w l) =
        Running w1 (l @ map Send (groupMessages (now i) datum))"
      by blast
    from Cons.IH [of w1 "(l @ map Send (groupMessages (now i) datum)) @ waitDelta i deltas"]
    obtain w' where "playback send now aborted groupedData ts deltas is
        (Running w1 ((l @ map Send (groupMessages (now i) datum)) @ waitDelta i deltas)) =
      Running w' (((l @ map Send (groupMessages (now i) datum)) @ waitDelta i deltas) @
        concat (map (iterationEffects now groupedData ts deltas) is))"
      using Cons.prems by auto
    then show ?thesis
      using i Some w1 by (simp add: iterationEffects_Some)
  qed
qed

lemma playback_prefix:
  "\<exists>rest. effects (playback send now aborted groupedData ts deltas is (Running w l)) @ rest =
          l @ concat (map (iterationEffects now groupedData ts deltas) is)"
proof (induction "is" arbitrary: w l)
  case Nil
  then show ?case by simp
next
  case (Cons i "is")
  show ?case
  proof (cases "aborted i")
    case True
    then show ?thesis by simp
  next
    case False
    show ?thesis
    proof (cases "map_of groupedData (ts ! i)")
      case None
      then show ?thesis
        using False Cons [of w l] by (simp add: iterationEffects_None)
    next
      case (Some datum)
      from fold_sendField_prefix [of send "now i" datum recognizedFields w l]
      obtain p q where pq:
        "p @ q = groupMessages (now i) datum"
        "(\<exists>w'. sendFields send (now i) datum (Running w l) = Running w' (l @ map Send p)) \<and> q = []
         \<or> (\<exists>e w'. sendFields send (now i) datum (Running w l) = Thrown e w' (l @ map Send p))"
        unfolding sendFields_def groupMessages_def by blast
      from pq(2) show ?thesis
      proof (elim disjE conjE exE)
        fix w1
        assume s: "sendFields send (now i) datum (Running w l) = Running w1 (l @ map Send p)"
          and q: "q = []"
        from Cons [of w1 "(l @ map Send p) @ waitDelta i deltas"]
        obtain rest where
          "effects (playback send now aborted groupedData ts deltas is
              (Running w1 ((l @ map Send p) @ waitDelta i deltas))) @ rest =
           ((l @ map Send p) @ waitDelta i deltas) @
             concat (map (iterationEffects now groupedData ts deltas) is)"
          by blast
        then show ?thesis
          using False Some s q pq(1) by (auto simp: iterationEffects_Some)
      next
        fix e w1
        assume s: "sendFields send (now i) datum (Running w l) = Thrown e w1 (l @ map Send p)"
        have "map Send (groupMessages (now i) datum) = map Send p @ map Send q"
          using pq(1) by (metis map_append)
        then show ?thesis
          using False Some s by (simp add: iterationEffects_Some)
      qed
    qed
  qed
qed

lemma prepareAndSendMessages_prefix:
  "\<exists>rest. effects (prepareAndSendMessages send now aborted groupedData w) @ rest =
     concat (map (iterationEffects now groupedData (sortedTimestamps groupedData)
                    (timeDeltas (sortedTimestamps groupedData)))
                 [0..<length (sortedTimestamps groupedData)])"
  using playback_prefix [of send now aborted groupedData "sortedTimestamps groupedData"
      "timeDeltas (sortedTimestamps groupedData)"
      "[0..<length (sortedTimestamps groupedData)]" w "[]"]
  by (simp add: prepareAndSendMessages_def Let_def)

lemma prepareAndSendMessages_cancelled_at:
  assumes "k \<le> length (sortedTimestamps groupedData)"
    and "\<And>i. i < k \<Longrightarrow> \<not> aborted i"
    and "k < length (sortedTimestamps groupedData) \<Longrightarrow> aborted k"
  shows "prepareAndSendMessages send now aborted groupedData w =
         playback send now (\<lambda>i. False) groupedData (sortedTimestamps groupedData)
           (timeDeltas (sortedTimestamps groupedData)) [0..<k] (Running w [])"
  unfolding prepareAndSendMessages_def Let_def
  using assms by (rule playback_cancelled_at)

lemma prepareAndSendMessages_effects:
  assumes acc: "\<And>line w. fst (send line w) = None"
    and "k \<le> length (sortedTimestamps groupedData)"
    and "\<And>i. i < k \<Longrightarrow> \<not> aborted i"
    and "k < length (sortedTimestamps groupedData) \<Longrightarrow> aborted k"
  shows "effects (prepareAndSendMessages send now aborted groupedData w) =
         concat (map (iterationEffects now groupedData (sortedTimestamps groupedData)
                        (timeDeltas (sortedTimestamps groupedData))) [0..<k])"
proof -
  have "\<exists>w'. playback send now (\<lambda>i. False) groupedData (sortedTimestamps groupedData)
           (timeDeltas (sortedTimestamps groupedData)) [0..<k] (Running w []) =
         Running w' ([] @ concat (map (iterationEffects now groupedData (sortedTimestamps groupedData)
                        (timeDeltas (sortedTimestamps groupedData))) [0..<k]))"
    using acc by (intro playback_accepted) simp_all
  moreover have "prepareAndSendMessages send now aborted groupedData w =
         playback send now (\<lambda>i. False) groupedData (sortedTimestamps groupedData)
           (timeDeltas (sortedTimestamps groupedData)) [0..<k] (Running w [])"
    using assms(2-4) by (rule prepareAndSendMessages_cancelled_at)
  ultimately show ?thesis
    by auto
qed

subsection \<open>Order of emission\<close>

text \<open>
  Claim C3. For the map that the grouping produces from any input, the list of timestamps
  that the driver walks through is the strictly ascending list of the timestamps of the
  measurements that are not ignored; it depends on the set of these timestamps only, not
  on the order of the input. Every timestamp of the list has its group, and that group
  bears this timestamp. When the transport accepts every message and iteration \<open>k\<close> is
  the first to find the cancellation signal set (or \<open>k\<close> is the number of groups and the
  signal is never found set), the effects of the run are exactly the messages and the
  wait of the group of the smallest timestamp, then those of the next, and so on up to
  the \<open>k\<close>-th. Whatever the transport and the signal do, the effects of the run are an
  initial part of what all groups emit one after the other in that order.
\<close>

theorem groups_emitted_in_ascending_order:
  "(let G = groupMeasurementsByTimestamp E ms; ts = sortedTimestamps G in
    ts = sorted_list_of_set (date ` {m \<in> set ms. \<not> ignoreMeasurementType (measureType m)}) \<and>
    sorted_wrt (<) ts \<and>
    (\<forall>i < length ts. map_of G (ts ! i) \<noteq> None) \<and>
    (\<forall>i datum. map_of G (ts ! i) = Some datum \<longrightarrow> timestamp datum = ts ! i) \<and>
    ((\<forall>line w. fst (send line w) = None) \<and> k \<le> length ts \<and> (\<forall>i<k. \<not> aborted i) \<and>
     (k < length ts \<longrightarrow> aborted k) \<longrightarrow>
       effects (prepareAndSendMessages send now aborted G w) =
         concat (map
           (\<lambda>i. case map_of G (ts ! i) of
                  None \<Rightarrow> []
                | Some datum \<Rightarrow>
                    map Send (groupMessages (now i) datum) @ waitDelta i (timeDeltas ts))
           [0..<k])) \<and>
    (\<exists>rest.
       effects (prepareAndSendMessages send now aborted G w) @ rest =
         concat (map
           (\<lambda>i. case map_of G (ts ! i) of
                  None \<Rightarrow> []
                | Some datum \<Rightarrow>
                    map Send (groupMessages (now i) datum) @ waitDelta i (timeDeltas ts))
           [0..<length ts])))"
proof -
  let ?G = "groupMeasurementsByTimestamp E ms"
  let ?ts = "sortedTimestamps ?G"
  have unfolded: "iterationEffects now ?G ?ts (timeDeltas ?ts) =
      (\<lambda>i. case map_of ?G (?ts ! i) of
              None \<Rightarrow> []
            | Some datum \<Rightarrow>
                map Send (groupMessages (now i) datum) @ waitDelta i (timeDeltas ?ts))"
    by (rule ext) (simp add: iterationEffects_def)
  have "sorted_list_of_set (set (map fst ?G)) = sort (remdups (map fst ?G))"
    by (rule sorted_list_of_set_sort_remdups)
  also have "remdups (map fst ?G) = map fst ?G"
    using distinct_group by (rule distinct_remdups_id)
  finally have list: "?ts =
      sorted_list_of_set (date ` {m \<in> set ms. \<not> ignoreMeasurementType (measureType m)})"
    using keys_group [of E ms] by (simp add: sortedTimestamps_def)
  have strict: "sorted_wrt (<) ?ts"
    using distinct_group by (rule sortedTimestamps_strict)
  have present: "\<forall>i < length ?ts. map_of ?G (?ts ! i) \<noteq> None"
    using map_of_sortedTimestamps [of _ ?G] by auto
  have bears: "\<forall>i datum. map_of ?G (?ts ! i) = Some datum \<longrightarrow> timestamp datum = ?ts ! i"
    using timestamp_group [of E ms] by blast
  have run: "effects (prepareAndSendMessages send now aborted ?G w) =
      concat (map
        (\<lambda>i. case map_of ?G (?ts ! i) of
               None \<Rightarrow> []
             | Some datum \<Rightarrow>
                 map Send (groupMessages (now i) datum) @ waitDelta i (timeDeltas ?ts))
        [0..<k])"
    if a: "(\<forall>line w. fst (send line w) = None) \<and> k \<le> length ?ts \<and> (\<forall>i<k. \<not> aborted i) \<and>
        (k < length ?ts \<longrightarrow> aborted k)"
  proof -
    have "effects (prepareAndSendMessages send now aborted ?G w) =
        concat (map (iterationEffects now ?G ?ts (timeDeltas ?ts)) [0..<k])"
      using a by (intro prepareAndSendMessages_effects) simp_all
    then show ?thesis
      by (simp only: unfolded)
  qed
  have "\<exists>rest. effects (prepareAndSendMessages send now aborted ?G w) @ rest =
      concat (map (iterationEffects now ?G ?ts (timeDeltas ?ts)) [0..<length ?ts])"
    by (rule prepareAndSendMessages_prefix)
  then have part: "\<exists>rest. effects (prepareAndSendMessages send now aborted ?G w) @ rest =
      concat (map
        (\<lambda>i. case map_of ?G (?ts ! i) of
               None \<Rightarrow> []
             | Some datum \<Rightarrow>
                 map Send (groupMessages (now i) datum) @ waitDelta i (timeDeltas ?ts))
        [0..<length ?ts])"
    by (simp only: unfolded)
  show ?thesis
    unfolding Let_def using list strict present bears run part by blast
qed

theorem groups_emitted_in_ascending_order_witness:
  "effects (prepareAndSendMessages acceptAll exampleClock (abortedFrom 3)
     (groupMeasurementsByTimestamp MeasurementTypeEnum
        [\<lparr>userId = 1, date = 107, value' = NumArray [61], measureType = ''HeartRate''\<rparr>,
         \<lparr>userId = 1, date = 100, value' = NumArray [59], measureType = ''HeartRate''\<rparr>,
         \<lparr>userId = 1, date = 103, value' = NumArray [60], measureType = ''HeartRate''\<rparr>])
     []) =
   [Send (JSON_stringify \<lparr>userId = 1, date = 1700000000000, value' = NumArray [59],
                          measureType = ''HeartRate''\<rparr>),
    Wait 3000,
    Send (JSON_stringify \<lparr>userId = 1, date = 1700000000001, value' = NumArray [60],
                          measureType = ''HeartRate''\<rparr>),
    Wait 4000,
    Send (JSON_stringify \<lparr>userId = 1, date = 1700000000002, value' = NumArray [61],
                          measureType = ''HeartRate''\<rparr>)] \<and>
   sortedTimestamps (groupMeasurementsByTimestamp MeasurementTypeEnum
        [\<lparr>userId = 1, date = 107, value' = NumArray [61], measureType = ''HeartRate''\<rparr>,
         \<lparr>userId = 1, date = 100, value' = NumArray [59], measureType = ''HeartRate''\<rparr>,
         \<lparr>userId = 1, date = 103, value' = NumArray [60], measureType = ''HeartRate''\<rparr>]) =
   [100, 103, 107]"
proof -
  have G: "groupMeasurementsByTimestamp MeasurementTypeEnum
        [\<lparr>userId = 1, date = 107, value' = NumArray [61], measureType = ''HeartRate''\<rparr>,
         \<lparr>userId = 1, date = 100, value' = NumArray [59], measureType = ''HeartRate''\<rparr>,
         \<lparr>userId = 1, date = 103, value' = NumArray [60], measureType = ''HeartRate''\<rparr>] =
     [(107, \<lparr>userId = 1, timestamp = 107, props = [(''heartRate'', NumArray [61])]\<rparr>),
      (100, \<lparr>userId = 1, timestamp = 100, props = [(''heartRate'', NumArray [59])]\<rparr>),
      (103, \<lparr>userId = 1, timestamp = 103, props = [(''heartRate'', NumArray [60])]\<rparr>)]"
    by (simp add: groupMeasurementsByTimestamp_def groupStep_def ignoreMeasurementType_def
          MeasurementTypeEnum_def)
  have ts: "sortedTimestamps
     [(107, \<lparr>userId = 1, timestamp = 107, props = [(''heartRate'', NumArray [61])]\<rparr>),
      (100, \<lparr>userId = 1, timestamp = 100, props = [(''heartRate'', NumArray [59])]\<rparr>),
      (103, \<lparr>userId = 1, timestamp = 103, props = [(''heartRate'', NumArray [60])]\<rparr>)] =
     [100, 103, 107]"
    by (simp add: sortedTimestamps_def)
  have hyp: "(\<forall>line w. fst (acceptAll line w) = None) \<and> (\<forall>i<3. \<not> abortedFrom 3 i)"
    by (simp add: acceptAll_def abortedFrom_def)
  have upt: "[0..<3] = [0, 1, 2]"
    by (simp add: upt_rec)
  show ?thesis
    using hyp groups_emitted_in_ascending_order
      [of MeasurementTypeEnum
          "[\<lparr>userId = 1, date = 107, value' = NumArray [61], measureType = ''HeartRate''\<rparr>,
            \<lparr>userId = 1, date = 100, value' = NumArray [59], measureType = ''HeartRate''\<rparr>,
            \<lparr>userId = 1, date = 103, value' = NumArray [60], measureType = ''HeartRate''\<rparr>]"
          acceptAll 3 "abortedFrom 3" exampleClock "[]"]
    by (simp add: Let_def G ts upt timeDeltas_def waitDelta_def setTimeoutDelay_def
          groupMessages_def fieldMessage_def recognizedFields_def exampleClock_def)
qed

subsection \<open>Deltas and waits\<close>

lemma deltas_and_waits_within_timer_range:
  assumes acc: "\<And>line w. fst (send line w) = None"
    and run: "\<And>i. \<not> aborted i"
    and range: "\<And>i. Suc i < length (sortedTimestamps groupedData) \<Longrightarrow>
      1 \<le> (sortedTimestamps groupedData ! Suc i - sortedTimestamps groupedData ! i) * 1000 \<and>
      (sortedTimestamps groupedData ! Suc i - sortedTimestamps groupedData ! i) * 1000 \<le> 2147483647"
  shows "effects (prepareAndSendMessages send now aborted groupedData w) =
        concat (map
          (\<lambda>i. case map_of groupedData (sortedTimestamps groupedData ! i) of
                 None \<Rightarrow> []
               | Some datum \<Rightarrow>
                   map Send (groupMessages (now i) datum) @
                   (if Suc i < length (sortedTimestamps groupedData)
                    then [Wait ((sortedTimestamps groupedData ! Suc i -
                                 sortedTimestamps groupedData ! i) * 1000)]
                    else []))
          [0..<length (sortedTimestamps groupedData)])"
proof -
  let ?ts = "sortedTimestamps groupedData"
  have "effects (prepareAndSendMessages send now aborted groupedData w) =
        concat (map (iterationEffects now groupedData ?ts (timeDeltas ?ts)) [0..<length ?ts])"
    using acc run by (intro prepareAndSendMessages_effects) simp_all
  also have "iterationEffects now groupedData ?ts (timeDeltas ?ts) =
        (\<lambda>i. case map_of groupedData (?ts ! i) of
                 None \<Rightarrow> []
               | Some datum \<Rightarrow>
                   map Send (groupMessages (now i) datum) @
                   (if Suc i < length ?ts then [Wait ((?ts ! Suc i - ?ts ! i) * 1000)] else []))"
  proof
    fix i
    show "iterationEffects now groupedData ?ts (timeDeltas ?ts) i =
        (case map_of groupedData (?ts ! i) of
                 None \<Rightarrow> []
               | Some datum \<Rightarrow>
                   map Send (groupMessages (now i) datum) @
                   (if Suc i < length ?ts then [Wait ((?ts ! Suc i - ?ts ! i) * 1000)] else []))"
      using range [of i]
      by (simp add: iterationEffects_def waitDelta_timeDeltas setTimeoutDelay_in_range
            split: option.splits)
  qed
  finally show ?thesis .
qed

lemma deltas_pairwise:
  "timeDeltas [100, 103, 107] = [3, 4] \<and>
   length (timeDeltas ts) = length ts - 1 \<and>
   (\<forall>i. Suc i < length ts \<longrightarrow> timeDeltas ts ! i = ts ! Suc i - ts ! i)"
  by (simp add: length_timeDeltas nth_timeDeltas) (simp add: timeDeltas_def)

text \<open>
  Claim C5. The deltas are the differences of successive timestamps, as the claim says,
  and a delta of up to 2147483 seconds is waited out in full, the messages of the last
  group being followed by nothing. A longer delta is not: for two groups with the
  timestamps 0 and 3000000 the delta is 3000000 seconds, the driver starts a timer of
  3000000000 milliseconds, which is more than a timer of the runtime takes, and the wait
  between the two groups is one millisecond.
\<close>

theorem long_delta_waits_one_millisecond:
  "timeDeltas [0, 3000000] = [3000000] \<and>
   effects (prepareAndSendMessages acceptAll exampleClock (abortedFrom 2)
     [(0, \<lparr>userId = 1, timestamp = 0, props = [(''heartRate'', NumArray [59])]\<rparr>),
      (3000000, \<lparr>userId = 1, timestamp = 3000000, props = [(''heartRate'', NumArray [60])]\<rparr>)]
     []) =
   [Send (JSON_stringify \<lparr>userId = 1, date = 1700000000000, value' = NumArray [59],
                          measureType = ''HeartRate''\<rparr>),
    Wait 1,
    Send (JSON_stringify \<lparr>userId = 1, date = 1700000000001, value' = NumArray [60],
                          measureType = ''HeartRate''\<rparr>)] \<and>
   effects (prepareAndSendMessages acceptAll exampleClock (abortedFrom 2)
     [(0, \<lparr>userId = 1, timestamp = 0, props = [(''heartRate'', NumArray [59])]\<rparr>),
      (3000000, \<lparr>userId = 1, timestamp = 3000000, props = [(''heartRate'', NumArray [60])]\<rparr>)]
     []) \<noteq>
   [Send (JSON_stringify \<lparr>userId = 1, date = 1700000000000, value' = NumArray [59],
                          measureType = ''HeartRate''\<rparr>),
    Wait 3000000000,
    Send (JSON_stringify \<lparr>userId = 1, date = 1700000000001, value' = NumArray [60],
                          measureType = ''HeartRate''\<rparr>)]"
proof -
  have upt: "[0..<2] = [0, 1]"
    by (simp add: upt_rec)
  show ?thesis
    by (simp add: prepareAndSendMessages_def sortedTimestamps_def timeDeltas_def upt
          sendFields_def sendField_def recognizedFields_def waitDelta_def setTimeoutDelay_def
          acceptAll_def abortedFrom_def exampleClock_def Let_def)
qed

lemma deltas_and_waits_example:
  "effects (prepareAndSendMessages acceptAll exampleClock (\<lambda>i. False)
     [(103, \<lparr>userId = 1, timestamp = 103, props = [(''heartRate'', NumArray [60])]\<rparr>),
      (100, \<lparr>userId = 1, timestamp = 100, props = [(''heartRate'', NumArray [59])]\<rparr>),
      (107, \<lparr>userId = 1, timestamp = 107, props = [(''heartRate'', NumArray [61])]\<rparr>)]
     []) =
   [Send (JSON_stringify \<lparr>userId = 1, date = 1700000000000, value' = NumArray [59],
                          measureType = ''HeartRate''\<rparr>),
    Wait 3000,
    Send (JSON_stringify \<lparr>userId = 1, date = 1700000000001, value' = NumArray [60],
                          measureType = ''HeartRate''\<rparr>),
    Wait 4000,
    Send (JSON_stringify \<lparr>userId = 1, date = 1700000000002, value' = NumArray [61],
                          measureType = ''HeartRate''\<rparr>)]"
proof -
  have upt: "[0..<3] = [0, 1, 2]"
    by (simp add: upt_rec)
  show ?thesis
    by (simp add: prepareAndSendMessages_def sortedTimestamps_def timeDeltas_def upt
          sendFields_def sendField_def recognizedFields_def waitDelta_def setTimeoutDelay_def
          acceptAll_def exampleClock_def Let_def)
qed

subsection \<open>The messages of a group\<close>

text \<open>
  Claim C4, as the code has it. When the transport accepts every message, the driver
  sends for a group exactly one message for each of the seven recognized properties that
  the group holds with a truthy value, in the order heartRate, breathFrequency,
  respiration, accelerationX, accelerationY, accelerationZ, position; a property that
  holds the number 0 is skipped like an absent one. The message of a property is the JSON
  text of the object with the clock's reading as date, the property's value, the group's
  userId and the type name that belongs to the property. In an iteration that is not
  cancelled these messages are what is sent, followed by the wait.
\<close>

theorem one_message_per_truthy_field:
  "((\<forall>line w. fst (send line w) = None) \<longrightarrow>
      (\<exists>w'. sendFields send now datum (Running w l) =
         Running w' (l @ map Send (concat (map (fieldMessage now datum)
           [(''heartRate'', ''HeartRate''),
            (''breathFrequency'', ''BreathFrequency''),
            (''respiration'', ''Respiration''),
            (''accelerationX'', ''AccelerationX''),
            (''accelerationY'', ''AccelerationY''),
            (''accelerationZ'', ''AccelerationZ''),
            (''position'', ''Position'')]))))) \<and>
   (\<forall>f T. fieldMessage now datum (f, T) =
      (case map_of (props datum) f of
         None \<Rightarrow> []
       | Some v \<Rightarrow>
           if truthy v
           then [JSON_stringify \<lparr>userId = userId datum, date = now f, value' = v, measureType = T\<rparr>]
           else [])) \<and>
   ((\<forall>line w. fst (send line w) = None) \<and> \<not> aborted i \<and>
    map_of groupedData (ts ! i) = Some datum \<longrightarrow>
      (\<exists>w'. playback send clock aborted groupedData ts deltas (i # is) (Running w l) =
         playback send clock aborted groupedData ts deltas is
           (Running w' (l @ map Send (groupMessages (clock i) datum) @ waitDelta i deltas))))"
proof (intro conjI allI impI)
  assume acc: "\<forall>line w. fst (send line w) = None"
  then have "\<exists>w'. sendFields send now datum (Running w l) =
      Running w' (l @ map Send (groupMessages now datum))"
    by (intro sendFields_accepted) simp
  then show "\<exists>w'. sendFields send now datum (Running w l) =
         Running w' (l @ map Send (concat (map (fieldMessage now datum)
           [(''heartRate'', ''HeartRate''),
            (''breathFrequency'', ''BreathFrequency''),
            (''respiration'', ''Respiration''),
            (''accelerationX'', ''AccelerationX''),
            (''accelerationY'', ''AccelerationY''),
            (''accelerationZ'', ''AccelerationZ''),
            (''position'', ''Position'')])))"
    by (simp only: groupMessages_def recognizedFields_def)
next
  fix f T
  show "fieldMessage now datum (f, T) =
      (case map_of (props datum) f of
         None \<Rightarrow> []
       | Some v \<Rightarrow>
           if truthy v
           then [JSON_stringify \<lparr>userId = userId datum, date = now f, value' = v, measureType = T\<rparr>]
           else [])"
    by (simp add: fieldMessage_def split: option.splits)
next
  assume a: "(\<forall>line w. fst (send line w) = None) \<and> \<not> aborted i \<and>
    map_of groupedData (ts ! i) = Some datum"
  then have "\<exists>w'. sendFields send (clock i) datum (Running w l) =
      Running w' (l @ map Send (groupMessages (clock i) datum))"
    by (intro sendFields_accepted) simp
  then obtain w' where "sendFields send (clock i) datum (Running w l) =
      Running w' (l @ map Send (groupMessages (clock i) datum))"
    by blast
  then have "playback send clock aborted groupedData ts deltas (i # is) (Running w l) =
         playback send clock aborted groupedData ts deltas is
           (Running w' (l @ map Send (groupMessages (clock i) datum) @ waitDelta i deltas))"
    using a by simp
  then show "\<exists>w'. playback send clock aborted groupedData ts deltas (i # is) (Running w l) =
         playback send clock aborted groupedData ts deltas is
           (Running w' (l @ map Send (groupMessages (clock i) datum) @ waitDelta i deltas))"
    by blast
qed

theorem one_message_per_truthy_field_witness:
  "effects (sendFields acceptAll (exampleClock 0)
     \<lparr>userId = 1, timestamp = 100,
        props = [(''respiration'', NumArray [16]), (''position'', Num 0),
                 (''heartRate'', NumArray [59])]\<rparr>
     (Running [] [])) =
   [Send (JSON_stringify \<lparr>userId = 1, date = 1700000000000, value' = NumArray [59],
                          measureType = ''HeartRate''\<rparr>),
    Send (JSON_stringify \<lparr>userId = 1, date = 1700000000000, value' = NumArray [16],
                          measureType = ''Respiration''\<rparr>)]"
proof -
  have acc: "\<forall>line w. fst (acceptAll line w) = None"
    by (simp add: acceptAll_def)
  from acc one_message_per_truthy_field
      [of acceptAll "exampleClock 0"
          "\<lparr>userId = 1, timestamp = 100,
             props = [(''respiration'', NumArray [16]), (''position'', Num 0),
                      (''heartRate'', NumArray [59])]\<rparr>"
          "[]" "[]"]
  obtain w' where "sendFields acceptAll (exampleClock 0)
     \<lparr>userId = 1, timestamp = 100,
        props = [(''respiration'', NumArray [16]), (''position'', Num 0),
                 (''heartRate'', NumArray [59])]\<rparr>
     (Running [] []) =
     Running w' ([] @ map Send (concat (map (fieldMessage (exampleClock 0)
        \<lparr>userId = 1, timestamp = 100,
           props = [(''respiration'', NumArray [16]), (''position'', Num 0),
                    (''heartRate'', NumArray [59])]\<rparr>)
           [(''heartRate'', ''HeartRate''),
            (''breathFrequency'', ''BreathFrequency''),
            (''respiration'', ''Respiration''),
            (''accelerationX'', ''AccelerationX''),
            (''accelerationY'', ''AccelerationY''),
            (''accelerationZ'', ''AccelerationZ''),
            (''position'', ''Position'')])))"
    by blast
  then show ?thesis
    by (simp add: fieldMessage_def exampleClock_def)
qed

text \<open>
  With ``populated'' read as ``present'', the claim as it is written fails for a group
  whose position is the number 0: the property is there, and no message is sent for it.
\<close>

theorem zero_valued_field_not_sent:
  "effects (sendFields acceptAll (exampleClock 0)
     \<lparr>userId = 1, timestamp = 100, props = [(''position'', Num 0)]\<rparr> (Running [] [])) \<noteq>
   map Send (concat (map (presentFieldMessage (exampleClock 0)
     \<lparr>userId = 1, timestamp = 100, props = [(''position'', Num 0)]\<rparr>) recognizedFields)) \<and>
   effects (sendFields acceptAll (exampleClock 0)
     \<lparr>userId = 1, timestamp = 100, props = [(''position'', Num 0)]\<rparr> (Running [] [])) = [] \<and>
   map Send (concat (map (presentFieldMessage (exampleClock 0)
     \<lparr>userId = 1, timestamp = 100, props = [(''position'', Num 0)]\<rparr>) recognizedFields)) =
   [Send (JSON_stringify \<lparr>userId = 1, date = 1700000000000, value' = Num 0,
                          measureType = ''Position''\<rparr>)]"
  by (simp add: sendFields_def sendField_def presentFieldMessage_def recognizedFields_def
        exampleClock_def)

subsection \<open>Cancellation\<close>

text \<open>
  Claim C6, as the code has it. The driver reads the cancellation signal once, at the
  start of each iteration. If iteration \<open>k\<close> is the first to find the signal set, the run
  is the run of the iterations before \<open>k\<close> and nothing more: the messages of the groups
  before \<open>k\<close> were sent, and neither the messages of group \<open>k\<close> nor those of a later group
  are sent. A signal that is set after the fields of group \<open>j\<close> were sent is found by
  iteration \<open>j + 1\<close> only, after the wait for the delta between the two groups: when the
  transport accepts every message, the effects of the run end with the messages of group
  \<open>j\<close> and that wait, whose timer has the delay that the runtime gives the delta in
  milliseconds, the delta itself when it is a delay that a timer takes.
\<close>

theorem cancellation_seen_at_iteration_start:
  "(k < length (sortedTimestamps groupedData) \<and> (\<forall>i<k. \<not> aborted i) \<and> aborted k \<longrightarrow>
      prepareAndSendMessages send now aborted groupedData w =
      playback send now (\<lambda>i. False) groupedData (sortedTimestamps groupedData)
        (timeDeltas (sortedTimestamps groupedData)) [0..<k] (Running w [])) \<and>
   ((\<forall>line w. fst (send line w) = None) \<and>
    Suc j < length (sortedTimestamps groupedData) \<and> (\<forall>i\<le>j. \<not> aborted i) \<and> aborted (Suc j) \<and>
    map_of groupedData (sortedTimestamps groupedData ! j) = Some datum \<longrightarrow>
      effects (prepareAndSendMessages send now aborted groupedData w) =
        concat (map (iterationEffects now groupedData (sortedTimestamps groupedData)
                       (timeDeltas (sortedTimestamps groupedData))) [0..<j]) @
        map Send (groupMessages (now j) datum) @
        [Wait (setTimeoutDelay
           ((sortedTimestamps groupedData ! Suc j - sortedTimestamps groupedData ! j) * 1000))]) \<and>
   (1 \<le> (sortedTimestamps groupedData ! Suc j - sortedTimestamps groupedData ! j) * 1000 \<and>
    (sortedTimestamps groupedData ! Suc j - sortedTimestamps groupedData ! j) * 1000 \<le> 2147483647 \<longrightarrow>
      setTimeoutDelay
        ((sortedTimestamps groupedData ! Suc j - sortedTimestamps groupedData ! j) * 1000) =
      (sortedTimestamps groupedData ! Suc j - sortedTimestamps groupedData ! j) * 1000)"
proof (intro conjI impI)
  assume "k < length (sortedTimestamps groupedData) \<and> (\<forall>i<k. \<not> aborted i) \<and> aborted k"
  then show "prepareAndSendMessages send now aborted groupedData w =
      playback send now (\<lambda>i. False) groupedData (sortedTimestamps groupedData)
        (timeDeltas (sortedTimestamps groupedData)) [0..<k] (Running w [])"
    by (intro prepareAndSendMessages_cancelled_at) simp_all
next
  let ?ts = "sortedTimestamps groupedData"
  assume a: "(\<forall>line w. fst (send line w) = None) \<and>
    Suc j < length ?ts \<and> (\<forall>i\<le>j. \<not> aborted i) \<and> aborted (Suc j) \<and>
    map_of groupedData (?ts ! j) = Some datum"
  then have "effects (prepareAndSendMessages send now aborted groupedData w) =
      concat (map (iterationEffects now groupedData ?ts (timeDeltas ?ts)) [0..<Suc j])"
    by (intro prepareAndSendMessages_effects) simp_all
  moreover have "iterationEffects now groupedData ?ts (timeDeltas ?ts) j =
      map Send (groupMessages (now j) datum) @
      [Wait (setTimeoutDelay ((?ts ! Suc j - ?ts ! j) * 1000))]"
    using a by (simp add: iterationEffects_Some waitDelta_timeDeltas)
  ultimately show "effects (prepareAndSendMessages send now aborted groupedData w) =
        concat (map (iterationEffects now groupedData ?ts (timeDeltas ?ts)) [0..<j]) @
        map Send (groupMessages (now j) datum) @
        [Wait (setTimeoutDelay ((?ts ! Suc j - ?ts ! j) * 1000))]"
    by simp
next
  assume "1 \<le> (sortedTimestamps groupedData ! Suc j - sortedTimestamps groupedData ! j) * 1000 \<and>
    (sortedTimestamps groupedData ! Suc j - sortedTimestamps groupedData ! j) * 1000 \<le> 2147483647"
  then show "setTimeoutDelay
        ((sortedTimestamps groupedData ! Suc j - sortedTimestamps groupedData ! j) * 1000) =
      (sortedTimestamps groupedData ! Suc j - sortedTimestamps groupedData ! j) * 1000"
    by (simp add: setTimeoutDelay_in_range)
qed

theorem cancellation_seen_at_iteration_start_witness:
  "effects (prepareAndSendMessages acceptAll exampleClock (abortedFrom 2)
     [(100, \<lparr>userId = 1, timestamp = 100, props = [(''heartRate'', NumArray [59])]\<rparr>),
      (103, \<lparr>userId = 1, timestamp = 103, props = [(''heartRate'', NumArray [60])]\<rparr>),
      (107, \<lparr>userId = 1, timestamp = 107, props = [(''heartRate'', NumArray [61])]\<rparr>)]
     []) =
   [Send (JSON_stringify \<lparr>userId = 1, date = 1700000000000, value' = NumArray [59],
                          measureType = ''HeartRate''\<rparr>),
    Wait 3000,
    Send (JSON_stringify \<lparr>userId = 1, date = 1700000000001, value' = NumArray [60],
                          measureType = ''HeartRate''\<rparr>),
    Wait 4000]"
proof -
  have ts: "sortedTimestamps
     [(100, \<lparr>userId = 1, timestamp = 100, props = [(''heartRate'', NumArray [59])]\<rparr>),
      (103, \<lparr>userId = 1, timestamp = 103, props = [(''heartRate'', NumArray [60])]\<rparr>),
      (107, \<lparr>userId = 1, timestamp = 107, props = [(''heartRate'', NumArray [61])]\<rparr>)] =
     [100, 103, 107]"
    by (simp add: sortedTimestamps_def)
  have hyp: "(\<forall>line w. fst (acceptAll line w) = None) \<and> (\<forall>i\<le>Suc 0. \<not> abortedFrom 2 i) \<and>
      abortedFrom 2 (Suc (Suc 0))"
    by (simp add: acceptAll_def abortedFrom_def)
  show ?thesis
    using hyp cancellation_seen_at_iteration_start
      [of 0
          "[(100, \<lparr>userId = 1, timestamp = 100, props = [(''heartRate'', NumArray [59])]\<rparr>),
            (103, \<lparr>userId = 1, timestamp = 103, props = [(''heartRate'', NumArray [60])]\<rparr>),
            (107, \<lparr>userId = 1, timestamp = 107, props = [(''heartRate'', NumArray [61])]\<rparr>)]"
          "abortedFrom 2" acceptAll exampleClock "[]" "Suc 0"
          "\<lparr>userId = 1, timestamp = 103, props = [(''heartRate'', NumArray [60])]\<rparr>"]
    by (simp add: ts iterationEffects_def timeDeltas_def waitDelta_def setTimeoutDelay_def
          groupMessages_def fieldMessage_def recognizedFields_def exampleClock_def)
qed

text \<open>
  The claim as it is written fails: a signal that is set after the fields of the first
  group were sent, so that the first iteration finds it unset and the second finds it set,
  does not keep the driver from waiting the delta of 3 seconds before it stops.
\<close>

theorem cancelled_after_group_still_waits:
  "\<not> abortedFrom 1 0 \<and> abortedFrom 1 1 \<and>
   effects (prepareAndSendMessages acceptAll exampleClock (abortedFrom 1)
     [(100, \<lparr>userId = 1, timestamp = 100, props = [(''heartRate'', NumArray [59])]\<rparr>),
      (103, \<lparr>userId = 1, timestamp = 103, props = [(''heartRate'', NumArray [60])]\<rparr>)]
     []) =
   [Send (JSON_stringify \<lparr>userId = 1, date = 1700000000000, value' = NumArray [59],
                          measureType = ''HeartRate''\<rparr>),
    Wait 3000] \<and>
   effects (prepareAndSendMessages acceptAll exampleClock (abortedFrom 1)
     [(100, \<lparr>userId = 1, timestamp = 100, props = [(''heartRate'', NumArray [59])]\<rparr>),
      (103, \<lparr>userId = 1, timestamp = 103, props = [(''heartRate'', NumArray [60])]\<rparr>)]
     []) \<noteq>
   [Send (JSON_stringify \<lparr>userId = 1, date = 1700000000000, value' = NumArray [59],
                          measureType = ''HeartRate''\<rparr>)]"
proof -
  have upt: "[0..<2] = [0, 1]"
    by (simp add: upt_rec)
  show ?thesis
    by (simp add: prepareAndSendMessages_def sortedTimestamps_def timeDeltas_def upt
          sendFields_def sendField_def recognizedFields_def waitDelta_def setTimeoutDelay_def
          acceptAll_def abortedFrom_def exampleClock_def Let_def)
qed

section \<open>Properties of the device resolver\<close>

lemma firstMatching_find:
  "firstMatching nameOrAddr lines =
     map_option fst (find (nameContains nameOrAddr) (List.map_filter matchDevice lines))"
  by (induction lines) (auto simp: nameContains_def split: option.splits)

lemma matchDeviceAt_wellformed:
  assumes a: "isAddress a" and n: "n \<noteq> []" "list_all notLineTerminator n"
  shows "matchDeviceAt (''Device '' @ a @ '' '' @ n) = Some (a, n)"
proof -
  have len: "length a = 17" and hex: "list_all hexColon a"
    using a by (simp_all add: isAddress_def)
  have tw: "takeWhile notLineTerminator n = n"
    using n(2) by (simp add: list_all_iff)
  show ?thesis
    using len hex n(1) by (simp add: matchDeviceAt_def startsWith_def Let_def tw)
qed

text \<open>
  Claim C7. An input that matches the address pattern (seventeen characters, each a
  hexadecimal digit or a colon) is returned as it is, and no command is run. For any other
  input the resolver runs the listing of paired devices once; when the listing succeeds,
  the result is the address of the first device, among those parsed from the lines of the
  form \<^verbatim>\<open>Device <address> <name>\<close>, whose name contains the input without regard to
  case, and the failure DeviceNotFound when no device matches, in particular when no
  device is listed. A line made of the word Device, an address and a name yields that
  address and that name.
\<close>

theorem resolveAddress_resolves:
  "(isAddress nameOrAddr \<longrightarrow> resolveAddress exec nameOrAddr w = (Inr nameOrAddr, w)) \<and>
   (\<not> isAddress nameOrAddr \<and> exec ''bluetoothctl devices Paired'' = Inr stdout \<longrightarrow>
      resolveAddress exec nameOrAddr w =
        (case find (nameContains nameOrAddr) (parseDevices stdout) of
           None \<Rightarrow> Inl DeviceNotFound
         | Some device \<Rightarrow> Inr (fst device),
         w @ [Exec ''bluetoothctl devices Paired''])) \<and>
   (\<not> isAddress nameOrAddr \<and> exec ''bluetoothctl devices Paired'' = Inr stdout \<and>
    parseDevices stdout = [] \<longrightarrow>
      fst (resolveAddress exec nameOrAddr w) = Inl DeviceNotFound) \<and>
   (isAddress a \<and> n \<noteq> [] \<and> list_all notLineTerminator n \<longrightarrow>
      matchDevice (''Device '' @ a @ '' '' @ n) = Some (a, n))"
proof (intro conjI impI)
  assume "isAddress nameOrAddr"
  then show "resolveAddress exec nameOrAddr w = (Inr nameOrAddr, w)"
    by (simp add: resolveAddress_def)
next
  assume "\<not> isAddress nameOrAddr \<and> exec ''bluetoothctl devices Paired'' = Inr stdout"
  then show "resolveAddress exec nameOrAddr w =
        (case find (nameContains nameOrAddr) (parseDevices stdout) of
           None \<Rightarrow> Inl DeviceNotFound
         | Some device \<Rightarrow> Inr (fst device),
         w @ [Exec ''bluetoothctl devices Paired''])"
    by (simp add: resolveAddress_def firstMatching_find parseDevices_def split: option.splits)
next
  assume "\<not> isAddress nameOrAddr \<and> exec ''bluetoothctl devices Paired'' = Inr stdout \<and>
    parseDevices stdout = []"
  then show "fst (resolveAddress exec nameOrAddr w) = Inl DeviceNotFound"
    by (simp add: resolveAddress_def firstMatching_find parseDevices_def)
next
  assume "isAddress a \<and> n \<noteq> [] \<and> list_all notLineTerminator n"
  then have "matchDeviceAt (''Device '' @ a @ '' '' @ n) = Some (a, n)"
    by (intro matchDeviceAt_wellformed) simp_all
  then show "matchDevice (''Device '' @ a @ '' '' @ n) = Some (a, n)"
    by simp
qed

theorem resolveAddress_resolves_witness:
  "resolveAddress pairedListing ''FC:02:96:04:33:ab'' [] = (Inr ''FC:02:96:04:33:ab'', []) \<and>
   resolveAddress pairedListing ''pixel'' [] =
     (Inr ''AA:BB:CC:DD:EE:FF'', [Exec ''bluetoothctl devices Paired'']) \<and>
   resolveAddress pairedListing ''nokia'' [] =
     (Inl DeviceNotFound, [Exec ''bluetoothctl devices Paired'']) \<and>
   matchDevice (''Device '' @ ''AA:BB:CC:DD:EE:FF'' @ '' '' @ ''Pixel 7'') =
     Some (''AA:BB:CC:DD:EE:FF'', ''Pixel 7'')"
proof -
  let ?S = "''Device FC:02:96:04:33:AB Xiaomi'' @ [CHR 0x0A] @
            ''Device AA:BB:CC:DD:EE:FF Pixel 7'' @ [CHR 0x0A]"
  let ?ds = "[(''FC:02:96:04:33:AB'', ''Xiaomi''), (''AA:BB:CC:DD:EE:FF'', ''Pixel 7'')]"
  have listing: "pairedListing ''bluetoothctl devices Paired'' = Inr ?S"
    by (simp only: pairedListing_def)
  have devices: "parseDevices ?S = ?ds"
    by code_simp
  have addr: "isAddress ''FC:02:96:04:33:ab''" "\<not> isAddress ''pixel''" "\<not> isAddress ''nokia''"
    by code_simp+
  have line: "isAddress ''AA:BB:CC:DD:EE:FF'' \<and> ''Pixel 7'' \<noteq> [] \<and>
      list_all notLineTerminator ''Pixel 7''"
    by code_simp
  have found:
    "find (nameContains ''pixel'') ?ds = Some (''AA:BB:CC:DD:EE:FF'', ''Pixel 7'')"
    "find (nameContains ''nokia'') ?ds = None"
    by code_simp+
  have "resolveAddress pairedListing ''FC:02:96:04:33:ab'' [] = (Inr ''FC:02:96:04:33:ab'', [])"
    using addr(1) resolveAddress_resolves [of "''FC:02:96:04:33:ab''" pairedListing "[]"]
    by blast
  moreover have "resolveAddress pairedListing ''pixel'' [] =
      (case find (nameContains ''pixel'') (parseDevices ?S) of
         None \<Rightarrow> Inl DeviceNotFound
       | Some device \<Rightarrow> Inr (fst device),
       [] @ [Exec ''bluetoothctl devices Paired''])"
    using addr(2) listing resolveAddress_resolves [of "''pixel''" pairedListing "[]" ?S]
    by blast
  then have "resolveAddress pairedListing ''pixel'' [] =
      (Inr ''AA:BB:CC:DD:EE:FF'', [Exec ''bluetoothctl devices Paired''])"
    by (simp only: devices found option.case fst_conv append_Nil)
  moreover have "resolveAddress pairedListing ''nokia'' [] =
      (case find (nameContains ''nokia'') (parseDevices ?S) of
         None \<Rightarrow> Inl DeviceNotFound
       | Some device \<Rightarrow> Inr (fst device),
       [] @ [Exec ''bluetoothctl devices Paired''])"
    using addr(3) listing resolveAddress_resolves [of "''nokia''" pairedListing "[]" ?S]
    by blast
  then have "resolveAddress pairedListing ''nokia'' [] =
      (Inl DeviceNotFound, [Exec ''bluetoothctl devices Paired''])"
    by (simp only: devices found option.case append_Nil)
  moreover have "matchDevice (''Device '' @ ''AA:BB:CC:DD:EE:FF'' @ '' '' @ ''Pixel 7'') =
      Some (''AA:BB:CC:DD:EE:FF'', ''Pixel 7'')"
    using line resolveAddress_resolves [of _ _ _ _ "''AA:BB:CC:DD:EE:FF''" "''Pixel 7''"]
    by blast
  ultimately show ?thesis
    by (simp only: simp_thms)
qed

section \<open>Properties of the channel negotiator\<close>








section \<open>Properties of the transports\<close>

lemma endsWith_newline_added:
  "endsWith (if endsWith message [CHR 0x0A] then message else message @ [CHR 0x0A]) [CHR 0x0A]"
  by (simp add: endsWith_def)

text \<open>
  Claim C9, as the code has it. The \<^verbatim>\<open>sendMessage\<close> of the class that holds the device
  handle fails with NotConnected when no handle is open and then writes nothing; with an
  open handle it performs one write, of the message with a newline appended unless the
  message ends with one already, and it succeeds or fails as the operating system reports
  for that write. The \<^verbatim>\<open>sendMessage\<close> of the class in \<^verbatim>\<open>src/bluetooth.ts\<close>, which has
  a connected flag and no handle, never fails: when the flag is not set it returns
  without doing anything, and in no case does it write to a device.
\<close>

theorem sendMessage_transports:
  "(rfcommFd this = None \<longrightarrow> sendMessage fs_write this message w = (Some NotConnected, w)) \<and>
   (rfcommFd this = Some fd \<longrightarrow>
      sendMessage fs_write this message w =
        (fs_write fd (if endsWith message [CHR 0x0A] then message else message @ [CHR 0x0A]),
         w @ [Write fd (if endsWith message [CHR 0x0A] then message else message @ [CHR 0x0A])])) \<and>
   endsWith (if endsWith message [CHR 0x0A] then message else message @ [CHR 0x0A]) [CHR 0x0A] \<and>
   (\<not> isConnected that \<longrightarrow> sendMessageSPP that message w = (None, w)) \<and>
   fst (sendMessageSPP that message w) = None \<and>
   (\<forall>fd' line. Write fd' line \<in> set (snd (sendMessageSPP that message w)) \<longrightarrow>
      Write fd' line \<in> set w)"
proof (intro conjI impI allI)
  show "sendMessage fs_write this message w = (Some NotConnected, w)" if "rfcommFd this = None"
    using that by (simp add: sendMessage_def)
  show "sendMessage fs_write this message w =
        (fs_write fd (if endsWith message [CHR 0x0A] then message else message @ [CHR 0x0A]),
         w @ [Write fd (if endsWith message [CHR 0x0A] then message else message @ [CHR 0x0A])])"
    if "rfcommFd this = Some fd"
    using that by (simp add: sendMessage_def Let_def)
  show "endsWith (if endsWith message [CHR 0x0A] then message else message @ [CHR 0x0A]) [CHR 0x0A]"
    by (rule endsWith_newline_added)
  show "sendMessageSPP that message w = (None, w)" if "\<not> isConnected that"
    using that by (simp add: sendMessageSPP_def)
  show "fst (sendMessageSPP that message w) = None"
    by (simp add: sendMessageSPP_def)
  show "Write fd' line \<in> set w"
    if "Write fd' line \<in> set (snd (sendMessageSPP that message w))" for fd' line
    using that by (auto simp: sendMessageSPP_def sendViaSPP_def split: if_splits)
qed

theorem sendMessage_transports_witness:
  "sendMessage (\<lambda>fd line. None) disconnected ''{}'' [] = (Some NotConnected, []) \<and>
   sendMessage (\<lambda>fd line. None) (disconnected\<lparr>rfcommFd := Some 7\<rparr>) ''{}'' [] =
     (None, [Write 7 (''{}'' @ [CHR 0x0A])]) \<and>
   sendMessage (\<lambda>fd line. Some TransportWriteFailure) (disconnected\<lparr>rfcommFd := Some 7\<rparr>)
     (''{}'' @ [CHR 0x0A]) [] =
     (Some TransportWriteFailure, [Write 7 (''{}'' @ [CHR 0x0A])]) \<and>
   sendMessageSPP
     \<lparr>deviceAddress' = ''FC:02:96:04:33:AB'', deviceName = [], isConnected = False,
        rfcommChannel = []\<rparr> ''{}'' [] = (None, [])"
proof -
  have fd: "rfcommFd disconnected = None" "rfcommFd (disconnected\<lparr>rfcommFd := Some 7\<rparr>) = Some 7"
    by (simp_all add: disconnected_def)
  have nl: "\<not> endsWith ''{}'' [CHR 0x0A]" "endsWith (''{}'' @ [CHR 0x0A]) [CHR 0x0A]"
    by (simp_all add: endsWith_def)
  have off: "\<not> isConnected \<lparr>deviceAddress' = ''FC:02:96:04:33:AB'', deviceName = [],
      isConnected = False, rfcommChannel = []\<rparr>"
    by simp
  show ?thesis
    using fd nl off
      sendMessage_transports [of disconnected "\<lambda>fd line. None" "''{}''" "[]"]
      sendMessage_transports [of "disconnected\<lparr>rfcommFd := Some 7\<rparr>" "\<lambda>fd line. None" "''{}''" "[]" 7]
      sendMessage_transports [of "disconnected\<lparr>rfcommFd := Some 7\<rparr>"
        "\<lambda>fd line. Some TransportWriteFailure" "''{}'' @ [CHR 0x0A]" "[]" 7]
      sendMessage_transports [of _ _ "''{}''" "[]" _
        "\<lparr>deviceAddress' = ''FC:02:96:04:33:AB'', deviceName = [], isConnected = False,
           rfcommChannel = []\<rparr>"]
    by simp
qed

text \<open>
  The claim as it is written fails for the class in \<^verbatim>\<open>src/bluetooth.ts\<close>: sending
  while not connected is not an error there.
\<close>

theorem sendMessageSPP_not_connected_no_error:
  "\<not> isConnected \<lparr>deviceAddress' = ''FC:02:96:04:33:AB'', deviceName = [], isConnected = False,
        rfcommChannel = []\<rparr> \<and>
   sendMessageSPP
     \<lparr>deviceAddress' = ''FC:02:96:04:33:AB'', deviceName = [], isConnected = False,
        rfcommChannel = []\<rparr> ''{}'' [] = (None, []) \<and>
   fst (sendMessageSPP
     \<lparr>deviceAddress' = ''FC:02:96:04:33:AB'', deviceName = [], isConnected = False,
        rfcommChannel = []\<rparr> ''{}'' []) \<noteq> Some NotConnected"
  by (simp add: sendMessageSPP_def)

end
